theory Spec2Isabelle
  imports Complex_Main "HOL-Library.Word"
begin

section \<open>The DOM renderer's row factory (DomRendererRowFactory)\<close>

text \<open>
  A shallow embedding of \<^verbatim>\<open>DomRendererRowFactory\<close> (src/unnamed/part_000) and of
  \<^verbatim>\<open>excludeFromContrastRatioDemands\<close> (src/unnamed/part_001).

  Numbers that hold columns, rows and cell counts are \<open>int\<close> (the link range uses the
  sentinel \<open>-1\<close>); pixel quantities and the contrast ratio are \<open>real\<close> (the model does
  not cover \<^verbatim>\<open>NaN\<close> or rounding); colour values and raw attributes are \<open>nat\<close>; the
  \<^verbatim>\<open>rgba\<close> field of a colour is a 32-bit word.

  The collaborators of the factory whose code is not part of the sources
  (buffer line, cell data, decoration service, theme, colour helpers, width cache)
  appear as records of what the factory reads from them.
\<close>

subsection \<open>Data\<close>

record icolor =
  css :: string
  rgba :: "32 word"

text \<open>A decoration is an object compared by reference; \<open>deco_ref\<close> is its identity.\<close>

record decoration =
  deco_ref :: nat
  layer :: "string option"
  backgroundColorRGB :: "icolor option"
  foregroundColorRGB :: "icolor option"

datatype color_mode = CM_DEFAULT | CM_P16 | CM_P256 | CM_RGB

text \<open>What \<^verbatim>\<open>createRow\<close> reads from an \<^verbatim>\<open>ICellData\<close>.\<close>

record cell =
  getWidth :: int
  getChars :: string
  getCode :: nat
  cell_fg :: nat
  cell_bg :: nat
  extended_ext :: nat
  extended_underlineStyle :: nat
  getFgColor :: nat
  getFgColorMode :: color_mode
  getBgColor :: nat
  getBgColorMode :: color_mode
  isBold :: bool
  isItalic :: bool
  isDim :: bool
  isInverse :: bool
  isInvisible :: bool
  isUnderline :: bool
  isOverline :: bool
  isStrikethrough :: bool
  isUnderlineColorDefault :: bool
  isUnderlineColorRGB :: bool
  getUnderlineColor :: nat

text \<open>What \<^verbatim>\<open>createRow\<close> reads from an \<^verbatim>\<open>IBufferLine\<close>.\<close>

record bufferLine =
  line_length :: int
  getNoBgTrimmedLength :: int
  loadCell :: "int \<Rightarrow> cell"
  translateToString :: "bool \<Rightarrow> int \<Rightarrow> int \<Rightarrow> string"

text \<open>
  Modelled from the spec: \<^verbatim>\<open>JoinedCellData\<close> (browser/services/CharacterJoinerService) is
  not part of the sources. A joined cell carries the concatenated text and the combined
  width; every other attribute is inherited from the first cell of the range.
\<close>

definition JoinedCellData :: "cell \<Rightarrow> string \<Rightarrow> int \<Rightarrow> cell" where
  "JoinedCellData firstCell chars width = firstCell\<lparr>getChars := chars, getWidth := width\<rparr>"

text \<open>
  Modelled from the spec: the constant \<^verbatim>\<open>WHITESPACE_CELL_CHAR\<close> (common/buffer/Constants)
  is not part of the sources; it is the whitespace sentinel, the plain space that
  \<^verbatim>\<open>createRow\<close> replaces by a non-breaking space under an underline or overline.
\<close>

definition WHITESPACE_CELL_CHAR :: string where
  "WHITESPACE_CELL_CHAR = '' ''"

definition NBSP :: string where
  "NBSP = [CHR 0xA0]"

record themeColors =
  foreground :: icolor
  background :: icolor
  ansi :: "nat \<Rightarrow> icolor"
  selectionBackgroundOpaque :: icolor
  selectionInactiveBackgroundOpaque :: icolor
  selectionForeground :: "icolor option"

text \<open>
  The services injected into the factory, the options it reads and the helper
  functions it imports: \<^verbatim>\<open>rgba.toColor\<close>, \<^verbatim>\<open>color.multiplyOpacity\<close>,
  \<^verbatim>\<open>color.ensureContrastRatio\<close>, \<^verbatim>\<open>AttributeData.toColorRGB\<close>, the constant
  \<^verbatim>\<open>INVERTED_DEFAULT_COLOR\<close> and the measuring function behind the width cache.
\<close>

record services =
  colors :: themeColors
  isFocused :: bool
  isCursorHidden :: bool
  isCursorInitialized :: bool
  minimumContrastRatio :: real
  drawBoldTextInBrightColors :: bool
  forEachDecorationAtCell :: "int \<Rightarrow> int \<Rightarrow> decoration list"
  getJoinedCharacters :: "int \<Rightarrow> (int \<times> int) list"
  toColor :: "nat \<Rightarrow> nat \<Rightarrow> nat \<Rightarrow> icolor"
  multiplyOpacity :: "icolor \<Rightarrow> real \<Rightarrow> icolor"
  ensureContrastRatio :: "icolor \<Rightarrow> icolor \<Rightarrow> real \<Rightarrow> icolor option"
  toColorRGB :: "nat \<Rightarrow> nat list"
  INVERTED_DEFAULT_COLOR :: nat
  measureWidth :: "string \<Rightarrow> bool \<Rightarrow> bool \<Rightarrow> real"

text \<open>
  The fields of the factory that a row render only reads: the selection pushed in by
  \<^verbatim>\<open>handleSelectionChanged\<close> and the public \<^verbatim>\<open>defaultSpacing\<close>.
\<close>

record factory =
  selectionStart :: "(int \<times> int) option"
  selectionEnd :: "(int \<times> int) option"
  columnSelectMode :: bool
  defaultSpacing :: real

definition newFactory :: factory where
  "newFactory = \<lparr>selectionStart = None, selectionEnd = None, columnSelectMode = False,
     defaultSpacing = 0\<rparr>"

definition handleSelectionChanged ::
  "factory \<Rightarrow> (int \<times> int) option \<Rightarrow> (int \<times> int) option \<Rightarrow> bool \<Rightarrow> factory" where
  "handleSelectionChanged this start end' mode =
     this\<lparr>selectionStart := start, selectionEnd := end', columnSelectMode := mode\<rparr>"

subsection \<open>Selection membership\<close>

definition isRowInSelection :: "factory \<Rightarrow> int \<Rightarrow> bool" where
  "isRowInSelection sel y =
     (case (selectionStart sel, selectionEnd sel) of
        (Some start, Some end') \<Rightarrow> y \<ge> snd start \<and> y \<le> snd end'
      | _ \<Rightarrow> False)"

definition isCellInSelection :: "factory \<Rightarrow> int \<Rightarrow> int \<Rightarrow> bool" where
  "isCellInSelection sel x y =
     (case (selectionStart sel, selectionEnd sel) of
        (Some start, Some end') \<Rightarrow>
          if columnSelectMode sel then
            (if fst start \<le> fst end' then
               x \<ge> fst start \<and> y \<ge> snd start \<and> x < fst end' \<and> y \<le> snd end'
             else
               x < fst start \<and> y \<ge> snd start \<and> x \<ge> fst end' \<and> y \<le> snd end')
          else
            (y > snd start \<and> y < snd end') \<or>
            (snd start = snd end' \<and> y = snd start \<and> x \<ge> fst start \<and> x < fst end') \<or>
            (snd start < snd end' \<and> y = snd end' \<and> x < fst end') \<or>
            (snd start < snd end' \<and> y = snd start \<and> x \<ge> fst start)
      | _ \<Rightarrow> False)"

text \<open>
  The membership predicate in the words of the specification (section 4.2), for a
  selection that has both endpoints, \<open>(sc, sr)\<close> and \<open>(ec, er)\<close>.
\<close>

definition spec_cell_in_column_selection :: "int \<times> int \<Rightarrow> int \<times> int \<Rightarrow> int \<Rightarrow> int \<Rightarrow> bool" where
  "spec_cell_in_column_selection start end' x y =
     (let leftCol = min (fst start) (fst end'); rightCol = max (fst start) (fst end')
      in (snd start \<le> y \<and> y \<le> snd end') \<and> (leftCol \<le> x \<and> x < rightCol))"

definition spec_cell_in_stream_selection :: "int \<times> int \<Rightarrow> int \<times> int \<Rightarrow> int \<Rightarrow> int \<Rightarrow> bool" where
  "spec_cell_in_stream_selection start end' x y =
     (let sc = fst start; sr = snd start; ec = fst end'; er = snd end';
          middleRow = (sr < y \<and> y < er);
          singleRow = (sr = er \<and> y = sr \<and> sc \<le> x \<and> x < ec);
          endRow = (sr < er \<and> y = er \<and> x < ec);
          startRow = (sr < er \<and> y = sr \<and> sc \<le> x)
      in middleRow \<or> singleRow \<or> endRow \<or> startRow)"

subsection \<open>Effective row length\<close>

text \<open>Lines 80 to 83 of \<^verbatim>\<open>createRow\<close>.\<close>

definition lineLength_of :: "factory \<Rightarrow> bufferLine \<Rightarrow> int \<Rightarrow> bool \<Rightarrow> int \<Rightarrow> int" where
  "lineLength_of sel lineData row isCursorRow cursorX =
     (let lineLength = (if isRowInSelection sel row then line_length lineData
                        else getNoBgTrimmedLength lineData)
      in if isCursorRow \<and> lineLength < cursorX + 1 then cursorX + 1 else lineLength)"

subsection \<open>Emitted elements\<close>

text \<open>
  A span element is the record of the properties \<^verbatim>\<open>createRow\<close> sets on it. Class
  names and style values are kept structured instead of being printed to strings:
  \<open>XTERM_BG_N n\<close> is the class \<^verbatim>\<open>xterm-bg-n\<close>, \<open>UNDERLINE_CLASS n\<close> is
  \<^verbatim>\<open>xterm-underline-n\<close>, \<open>CssHex n\<close> is the six-digit hexadecimal colour of \<open>n\<close>,
  \<open>bg_left\<close> and \<open>bg_width\<close> are the pixel numbers of \<^verbatim>\<open>style.left\<close> and
  \<^verbatim>\<open>style.width\<close>.
\<close>

datatype css_class =
    XTERM_BG
  | XTERM_BG_N nat
  | XTERM_FG_N nat
  | XTERM_DECORATION_TOP
  | CURSOR_CLASS
  | CURSOR_BLINK_CLASS
  | CURSOR_STYLE_BLOCK_CLASS
  | CURSOR_STYLE_OUTLINE_CLASS
  | CURSOR_STYLE_BAR_CLASS
  | CURSOR_STYLE_UNDERLINE_CLASS
  | BOLD_CLASS
  | DIM_CLASS
  | ITALIC_CLASS
  | UNDERLINE_CLASS nat
  | OVERLINE_CLASS
  | STRIKETHROUGH_CLASS

datatype css_color = CssText string | CssHex nat | CssRgb "nat list"

record bgElement =
  bg_classList :: "css_class list"
  bg_left :: real
  bg_width :: "real option"
  bg_backgroundColor :: "css_color option"

record charElement =
  className :: "css_class list"
  textContent :: string
  style_color :: "css_color option"
  style_textDecorationColor :: "css_color option"
  style_textDecoration :: "string option"
  style_letterSpacing :: "real option"

definition createBgSpan :: bgElement where
  "createBgSpan = \<lparr>bg_classList = [], bg_left = 0, bg_width = None, bg_backgroundColor = None\<rparr>"

definition createCharSpan :: charElement where
  "createCharSpan = \<lparr>className = [], textContent = [], style_color = None,
     style_textDecorationColor = None, style_textDecoration = None, style_letterSpacing = None\<rparr>"

subsection \<open>Shared mutable state: scratch cell and caches\<close>

text \<open>
  Modelled from the spec: the contrast cache (\<^verbatim>\<open>IColorContrastCache\<close>) and the width
  cache (\<^verbatim>\<open>WidthCache\<close>) are not part of the sources. The contrast cache maps an
  ordered pair of colour values to an adjusted colour or to the explicit marker for no
  adjustment: \<open>None\<close> is \<^verbatim>\<open>undefined\<close> (no entry), \<open>Some None\<close> is \<^verbatim>\<open>null\<close>. The width
  cache maps (text, bold, italic) to the measured width and memoizes it.
\<close>

type_synonym contrastCache = "32 word \<times> 32 word \<Rightarrow> icolor option option"

record store =
  workCell :: cell
  contrastCache :: contrastCache
  halfContrastCache :: contrastCache
  widthCache :: "string \<times> bool \<times> bool \<Rightarrow> real option"

definition widthCache_get :: "services \<Rightarrow> store \<Rightarrow> string \<Rightarrow> bool \<Rightarrow> bool \<Rightarrow> real \<times> store" where
  "widthCache_get sv s c bold italic =
     (case widthCache s (c, bold, italic) of
        Some w \<Rightarrow> (w, s)
      | None \<Rightarrow>
          (let w = measureWidth sv c bold italic
           in (w, s\<lparr>widthCache := (widthCache s)((c, bold, italic) \<mapsto> w)\<rparr>)))"

subsection \<open>Minimum contrast\<close>

text \<open>src/unnamed/part_001 (RendererUtils).\<close>

definition isPowerlineGlyph :: "nat \<Rightarrow> bool" where
  "isPowerlineGlyph codepoint = (0xE0A4 \<le> codepoint \<and> codepoint \<le> 0xE0D6)"

definition isBoxOrBlockGlyph :: "nat \<Rightarrow> bool" where
  "isBoxOrBlockGlyph codepoint = (0x2500 \<le> codepoint \<and> codepoint \<le> 0x259F)"

definition excludeFromContrastRatioDemands :: "nat \<Rightarrow> bool" where
  "excludeFromContrastRatioDemands codepoint =
     (isPowerlineGlyph codepoint \<or> isBoxOrBlockGlyph codepoint)"

definition getContrastCache :: "store \<Rightarrow> cell \<Rightarrow> contrastCache" where
  "getContrastCache s c = (if isDim c then halfContrastCache s else contrastCache s)"

definition setContrastCache :: "store \<Rightarrow> cell \<Rightarrow> 32 word \<times> 32 word \<Rightarrow> icolor option \<Rightarrow> store" where
  "setContrastCache s c key v =
     (if isDim c then s\<lparr>halfContrastCache := (halfContrastCache s)(key \<mapsto> v)\<rparr>
      else s\<lparr>contrastCache := (contrastCache s)(key \<mapsto> v)\<rparr>)"

text \<open>\<^verbatim>\<open>bgOverride || bg\<close>.\<close>

definition orElse :: "icolor option \<Rightarrow> icolor \<Rightarrow> icolor" where
  "orElse override c = (case override of Some c' \<Rightarrow> c' | None \<Rightarrow> c)"

text \<open>
  The first component of \<open>contrastLookup\<close> is the value of \<^verbatim>\<open>adjustedColor\<close> after the
  cache has been tried (line 519), the second says whether the cache was read.
\<close>

definition contrastLookup ::
  "store \<Rightarrow> icolor \<Rightarrow> icolor \<Rightarrow> cell \<Rightarrow> icolor option \<Rightarrow> icolor option \<Rightarrow> icolor option option" where
  "contrastLookup s bg fg c bgOverride fgOverride =
     (if bgOverride = None \<and> fgOverride = None
      then getContrastCache s c (rgba bg, rgba fg) else None)"

definition applyMinimumContrast ::
  "services \<Rightarrow> store \<Rightarrow> charElement \<Rightarrow> icolor \<Rightarrow> icolor \<Rightarrow> cell \<Rightarrow> icolor option \<Rightarrow> icolor option
     \<Rightarrow> bool \<times> charElement \<times> store" where
  "applyMinimumContrast sv s element bg fg c bgOverride fgOverride =
     (if minimumContrastRatio sv = 1 \<or> excludeFromContrastRatioDemands (getCode c)
      then (False, element, s)
      else
        let (adjustedColor, s') =
              (case contrastLookup s bg fg c bgOverride fgOverride of
                 None \<Rightarrow>
                   (let ratio = minimumContrastRatio sv / (if isDim c then 2 else 1);
                        computed = ensureContrastRatio sv (orElse bgOverride bg) (orElse fgOverride fg) ratio
                    in (computed,
                        setContrastCache s c
                          (rgba (orElse bgOverride bg), rgba (orElse fgOverride fg)) computed))
               | Some cached \<Rightarrow> (cached, s))
        in (case adjustedColor of
              Some col \<Rightarrow> (True, element\<lparr>style_color := Some (CssText (css col))\<rparr>, s')
            | None \<Rightarrow> (False, element, s')))"

subsection \<open>Arguments and loop variables of createRow\<close>

record rowArgs =
  arg_lineData :: bufferLine
  arg_row :: int
  arg_isCursorRow :: bool
  arg_cursorStyle :: "string option"
  arg_cursorInactiveStyle :: "string option"
  arg_cursorX :: int
  arg_cursorBlink :: bool
  arg_cellWidth :: real
  arg_linkStart :: int
  arg_linkEnd :: int

text \<open>
  The variables of the loop. \<open>cur_x\<close> is the loop index \<^verbatim>\<open>x\<close> and \<open>cur_cursorX\<close> the
  parameter \<^verbatim>\<open>cursorX\<close>, which the loop reassigns. The variable \<^verbatim>\<open>charElement\<close> is
  the last element of \<open>charElements\<close> and is undefined exactly when that list is empty
  (it is assigned where the element is created and pushed); likewise
  \<^verbatim>\<open>backgroundElement\<close>. \<open>shared\<close> is the state that outlives the call: the scratch
  cell of the factory, the two contrast caches of the theme and the width cache.
\<close>

record rowState =
  cur_x :: int
  cur_cursorX :: int
  joinedRanges :: "(int \<times> int) list"
  charElements :: "charElement list"
  backgroundElements :: "bgElement list"
  charCellAmount :: int
  charText :: string
  backgroundCellAmount :: int
  oldBg :: nat
  oldFg :: nat
  oldExt :: nat
  oldLinkHover :: bool
  oldSpacing :: real
  oldIsInSelection :: bool
  oldDecorations :: "decoration list"
  shared :: store

text \<open>What one iteration computes about the unit at \<open>cur_x\<close> (lines 112 to 155).\<close>

record cellInfo =
  ci_cell :: cell
  ci_width :: int
  ci_isJoined :: bool
  ci_lastCharX :: int
  ci_isInSelection :: bool
  ci_isCursorCell :: bool
  ci_isLinkHover :: bool
  ci_decorations :: "decoration list"
  ci_chars :: string
  ci_spacing :: real

subsection \<open>Loading the unit at a column\<close>

text \<open>\<^verbatim>\<open>joinedRanges.length > 0 && x === joinedRanges[0][0]\<close>, giving the range.\<close>

definition joinedAt :: "rowState \<Rightarrow> (int \<times> int) option" where
  "joinedAt st =
     (case joinedRanges st of
        [] \<Rightarrow> None
      | jrange # _ \<Rightarrow> if cur_x st = fst jrange then Some jrange else None)"

definition charsToRender :: "cell \<Rightarrow> string" where
  "charsToRender c =
     (let chars = (if getChars c = [] then WHITESPACE_CELL_CHAR else getChars c)
      in if chars = '' '' \<and> (isUnderline c \<or> isOverline c) then NBSP else chars)"

definition isLinkHoverAt :: "rowArgs \<Rightarrow> int \<Rightarrow> bool" where
  "isLinkHoverAt a xc =
     (let hasHover = (arg_linkStart a \<noteq> -1 \<and> arg_linkEnd a \<noteq> -1)
      in hasHover \<and> xc \<ge> arg_linkStart a \<and> xc \<le> arg_linkEnd a)"

definition loadUnit :: "services \<Rightarrow> factory \<Rightarrow> rowArgs \<Rightarrow> rowState \<Rightarrow> cellInfo \<times> rowState" where
  "loadUnit sv this a st =
     (let xc = cur_x st;
          work = workCell (shared st);
          c = (case joinedAt st of
                 Some jrange \<Rightarrow>
                   JoinedCellData work
                     (translateToString (arg_lineData a) True (fst jrange) (snd jrange))
                     (snd jrange - fst jrange)
               | None \<Rightarrow> work);
          lastCharX = (case joinedAt st of Some jrange \<Rightarrow> snd jrange - 1 | None \<Rightarrow> xc);
          st1 = (case joinedAt st of
                   Some jrange \<Rightarrow> st\<lparr>joinedRanges := tl (joinedRanges st)\<rparr>
                 | None \<Rightarrow> st);
          chars = charsToRender c;
          (measured, s') = widthCache_get sv (shared st1) chars (isBold c) (isItalic c)
      in (\<lparr>ci_cell = c,
           ci_width = getWidth c,
           ci_isJoined = (joinedAt st \<noteq> None),
           ci_lastCharX = lastCharX,
           ci_isInSelection = isCellInSelection this xc (arg_row a),
           ci_isCursorCell = (arg_isCursorRow a \<and> xc = cur_cursorX st),
           ci_isLinkHover = isLinkHoverAt a xc,
           ci_decorations = forEachDecorationAtCell sv xc (arg_row a),
           ci_chars = chars,
           ci_spacing = real_of_int (getWidth c) * arg_cellWidth a - measured\<rparr>,
          st1\<lparr>shared := s'\<rparr>))"

subsection \<open>Merge eligibility\<close>

text \<open>The loop of \<^verbatim>\<open>_isSameDecorations\<close>, run on two arrays of the same length.\<close>

fun sameDecorationRefs :: "decoration list \<Rightarrow> decoration list \<Rightarrow> bool" where
  "sameDecorationRefs (d1 # decos1) (d2 # decos2) =
     (if deco_ref d1 \<noteq> deco_ref d2 then False else sameDecorationRefs decos1 decos2)"
| "sameDecorationRefs _ _ = True"

definition isSameDecorations :: "decoration list \<Rightarrow> decoration list \<Rightarrow> bool" where
  "isSameDecorations decos1 decos2 =
     (if length decos1 = 0 \<and> length decos2 = 0 then True
      else if length decos1 \<noteq> length decos2 then False
      else sameDecorationRefs decos1 decos2)"

definition canMergeCharacters :: "services \<Rightarrow> rowState \<Rightarrow> cellInfo \<Rightarrow> bool" where
  "canMergeCharacters sv st ci =
     (charElements st \<noteq> []
      \<and> charCellAmount st \<noteq> 0
      \<and> ((ci_isInSelection ci \<and> oldIsInSelection st \<and> selectionForeground (colors sv) \<noteq> None)
         \<or> cell_fg (ci_cell ci) = oldFg st)
      \<and> extended_ext (ci_cell ci) = oldExt st
      \<and> ci_isLinkHover ci = oldLinkHover st
      \<and> isSameDecorations (ci_decorations ci) (oldDecorations st)
      \<and> ci_spacing ci = oldSpacing st
      \<and> \<not> ci_isCursorCell ci
      \<and> \<not> ci_isJoined ci)"

definition canMergeBackground :: "rowState \<Rightarrow> cellInfo \<Rightarrow> bool" where
  "canMergeBackground st ci =
     (backgroundElements st \<noteq> []
      \<and> backgroundCellAmount st \<noteq> 0
      \<and> isSameDecorations (ci_decorations ci) (oldDecorations st)
      \<and> ((ci_isInSelection ci \<and> oldIsInSelection st)
         \<or> (\<not> ci_isInSelection ci \<and> \<not> oldIsInSelection st \<and> cell_bg (ci_cell ci) = oldBg st)))"

subsection \<open>Paint resolution\<close>

text \<open>
  The local variables \<^verbatim>\<open>fg\<close>, \<^verbatim>\<open>fgColorMode\<close>, \<^verbatim>\<open>bg\<close>, \<^verbatim>\<open>bgColorMode\<close>,
  \<^verbatim>\<open>bgOverride\<close>, \<^verbatim>\<open>fgOverride\<close> and \<^verbatim>\<open>isTop\<close> of lines 221 to 273.
\<close>

record paint =
  p_fg :: nat
  p_fgColorMode :: color_mode
  p_bg :: nat
  p_bgColorMode :: color_mode
  p_bgOverride :: "icolor option"
  p_fgOverride :: "icolor option"
  p_isTop :: bool

text \<open>\<^verbatim>\<open>rgba >> 8 & 0xFFFFFF\<close> on a 32-bit colour value.\<close>

definition rgb24 :: "32 word \<Rightarrow> nat" where
  "rgb24 w = (unat w div 256) mod 16777216"

text \<open>Lines 221 to 233: the raw colours, swapped under \<^verbatim>\<open>inverse\<close>.\<close>

definition initialPaint :: "cell \<Rightarrow> paint" where
  "initialPaint c =
     (if isInverse c then
        \<lparr>p_fg = getBgColor c, p_fgColorMode = getBgColorMode c,
         p_bg = getFgColor c, p_bgColorMode = getFgColorMode c,
         p_bgOverride = None, p_fgOverride = None, p_isTop = False\<rparr>
      else
        \<lparr>p_fg = getFgColor c, p_fgColorMode = getFgColorMode c,
         p_bg = getBgColor c, p_bgColorMode = getBgColorMode c,
         p_bgOverride = None, p_fgOverride = None, p_isTop = False\<rparr>)"

text \<open>Lines 240 to 255: the callback run for one decoration.\<close>

definition decorationOverride :: "decoration \<Rightarrow> paint \<Rightarrow> paint" where
  "decorationOverride d p =
     (if layer d \<noteq> Some ''top'' \<and> p_isTop p then p
      else
        let p1 = (case backgroundColorRGB d of
                    Some col \<Rightarrow> p\<lparr>p_bgColorMode := CM_RGB, p_bg := rgb24 (rgba col),
                                  p_bgOverride := Some col\<rparr>
                  | None \<Rightarrow> p);
            p2 = (case foregroundColorRGB d of
                    Some col \<Rightarrow> p1\<lparr>p_fgColorMode := CM_RGB, p_fg := rgb24 (rgba col),
                                   p_fgOverride := Some col\<rparr>
                  | None \<Rightarrow> p1)
        in p2\<lparr>p_isTop := (layer d = Some ''top'')\<rparr>)"

definition applyDecorations :: "decoration list \<Rightarrow> paint \<Rightarrow> paint" where
  "applyDecorations ds p = fold decorationOverride ds p"

text \<open>Lines 258 to 273.\<close>

definition applySelection :: "services \<Rightarrow> bool \<Rightarrow> paint \<Rightarrow> paint" where
  "applySelection sv isInSelection p =
     (if \<not> p_isTop p \<and> isInSelection then
        let bgOverride = (if isFocused sv then selectionBackgroundOpaque (colors sv)
                          else selectionInactiveBackgroundOpaque (colors sv));
            p1 = p\<lparr>p_bgOverride := Some bgOverride, p_bg := rgb24 (rgba bgOverride),
                   p_bgColorMode := CM_RGB, p_isTop := True\<rparr>
        in (case selectionForeground (colors sv) of
              Some col \<Rightarrow> p1\<lparr>p_fgColorMode := CM_RGB, p_fg := rgb24 (rgba col),
                             p_fgOverride := Some col\<rparr>
            | None \<Rightarrow> p1)
      else p)"

definition resolvePaint :: "services \<Rightarrow> rowArgs \<Rightarrow> rowState \<Rightarrow> cellInfo \<Rightarrow> paint" where
  "resolvePaint sv a st ci =
     applySelection sv (ci_isInSelection ci)
       (applyDecorations (forEachDecorationAtCell sv (cur_x st) (arg_row a))
          (initialPaint (ci_cell ci)))"

text \<open>
  Lines 276 to 292. \<^verbatim>\<open>bg >> 16\<close>, \<^verbatim>\<open>bg >> 8 & 0xFF\<close> and \<^verbatim>\<open>bg & 0xFF\<close> are written
  with \<open>div\<close> and \<open>mod\<close>.
\<close>

definition resolveBg :: "services \<Rightarrow> bool \<Rightarrow> paint \<Rightarrow> icolor" where
  "resolveBg sv isInv p =
     (case p_bgColorMode p of
        CM_P16 \<Rightarrow> ansi (colors sv) (p_bg p)
      | CM_P256 \<Rightarrow> ansi (colors sv) (p_bg p)
      | CM_RGB \<Rightarrow> toColor sv (p_bg p div 65536) ((p_bg p div 256) mod 256) (p_bg p mod 256)
      | CM_DEFAULT \<Rightarrow> if isInv then foreground (colors sv) else background (colors sv))"

text \<open>Lines 295 to 299: the value of \<^verbatim>\<open>bgOverride\<close> handed to the contrast check.\<close>

definition dimBgOverride :: "services \<Rightarrow> cell \<Rightarrow> icolor \<Rightarrow> paint \<Rightarrow> icolor option" where
  "dimBgOverride sv c resolvedBg p =
     (case p_bgOverride p of
        None \<Rightarrow> if isDim c then Some (multiplyOpacity sv resolvedBg 0.5) else None
      | Some col \<Rightarrow> Some col)"

subsection \<open>Opening a background run\<close>

text \<open>
  Assignment through the variable that aliases the last pushed element
  (\<^verbatim>\<open>backgroundElement!.style.width = ...\<close>, \<^verbatim>\<open>charElement!.textContent = ...\<close>).
  The source writes through it only when the cell counter is non-zero, which never
  happens before an element was pushed.
\<close>

definition setLast :: "('a \<Rightarrow> 'a) \<Rightarrow> 'a list \<Rightarrow> 'a list" where
  "setLast f xs = (if xs = [] then [] else butlast xs @ [f (last xs)])"

definition closeBackground :: "rowArgs \<Rightarrow> rowState \<Rightarrow> bgElement list" where
  "closeBackground a st =
     (if backgroundCellAmount st \<noteq> 0 then
        setLast (\<lambda>e. e\<lparr>bg_width :=
                   Some (real_of_int (backgroundCellAmount st) * arg_cellWidth a)\<rparr>)
          (backgroundElements st)
      else backgroundElements st)"

definition newBackgroundElement :: "services \<Rightarrow> rowArgs \<Rightarrow> int \<Rightarrow> bool \<Rightarrow> paint \<Rightarrow> bgElement" where
  "newBackgroundElement sv a xc isInv p =
     (let e = createBgSpan\<lparr>bg_classList := [XTERM_BG],
                bg_left := arg_cellWidth a * real_of_int xc\<rparr>
      in case p_bgColorMode p of
           CM_P16 \<Rightarrow> e\<lparr>bg_classList := bg_classList e @ [XTERM_BG_N (p_bg p)]\<rparr>
         | CM_P256 \<Rightarrow> e\<lparr>bg_classList := bg_classList e @ [XTERM_BG_N (p_bg p)]\<rparr>
         | CM_RGB \<Rightarrow> e\<lparr>bg_backgroundColor := Some (CssHex (p_bg p))\<rparr>
         | CM_DEFAULT \<Rightarrow>
             if isInv
             then e\<lparr>bg_classList := bg_classList e @ [XTERM_BG_N (INVERTED_DEFAULT_COLOR sv)]\<rparr>
             else e)"

text \<open>Lines 302 to 328.\<close>

definition openBackground :: "services \<Rightarrow> rowArgs \<Rightarrow> cellInfo \<Rightarrow> bool \<Rightarrow> paint \<Rightarrow> rowState \<Rightarrow> rowState" where
  "openBackground sv a ci isInv p st =
     st\<lparr>backgroundElements := closeBackground a st @ [newBackgroundElement sv a (cur_x st) isInv p],
        backgroundCellAmount := 0 + ci_width ci\<rparr>"

subsection \<open>Opening a text run\<close>

text \<open>Lines 354 to 385: the classes pushed for the cursor.\<close>

definition cursorClasses :: "services \<Rightarrow> rowArgs \<Rightarrow> css_class list" where
  "cursorClasses sv a =
     [CURSOR_CLASS] @
     (if isFocused sv then
        (if arg_cursorBlink a then [CURSOR_BLINK_CLASS] else []) @
        [if arg_cursorStyle a = Some ''bar'' then CURSOR_STYLE_BAR_CLASS
         else if arg_cursorStyle a = Some ''underline'' then CURSOR_STYLE_UNDERLINE_CLASS
         else CURSOR_STYLE_BLOCK_CLASS]
      else
        (case arg_cursorInactiveStyle a of
           None \<Rightarrow> []
         | Some style \<Rightarrow>
             if style = ''outline'' then [CURSOR_STYLE_OUTLINE_CLASS]
             else if style = ''block'' then [CURSOR_STYLE_BLOCK_CLASS]
             else if style = ''bar'' then [CURSOR_STYLE_BAR_CLASS]
             else if style = ''underline'' then [CURSOR_STYLE_UNDERLINE_CLASS]
             else []))"

text \<open>Lines 400 to 429: the text of the new run.\<close>

definition newCharText :: "cell \<Rightarrow> string" where
  "newCharText c =
     (let t0 = (if isInvisible c then WHITESPACE_CELL_CHAR
                else if getChars c = [] then WHITESPACE_CELL_CHAR else getChars c);
          t1 = (if isUnderline c \<and> t0 = '' '' then NBSP else t0)
      in if isOverline c \<and> t1 = '' '' then NBSP else t1)"

text \<open>Lines 411 to 421: \<^verbatim>\<open>style.textDecorationColor\<close>.\<close>

definition underlineColorStyle :: "services \<Rightarrow> cell \<Rightarrow> css_color option" where
  "underlineColorStyle sv c =
     (if isUnderline c \<and> \<not> isUnderlineColorDefault c then
        (if isUnderlineColorRGB c then Some (CssRgb (toColorRGB sv (getUnderlineColor c)))
         else
           let fg = getUnderlineColor c;
               fg' = (if drawBoldTextInBrightColors sv \<and> isBold c \<and> fg < 8 then fg + 8 else fg)
           in Some (CssText (css (ansi (colors sv) fg'))))
      else None)"

text \<open>
  Lines 442 to 469: the foreground. The result is the classes pushed, the element and
  the store after \<^verbatim>\<open>_applyMinimumContrast\<close>.
\<close>

definition foregroundPaint ::
  "services \<Rightarrow> store \<Rightarrow> charElement \<Rightarrow> cell \<Rightarrow> bool \<Rightarrow> paint \<Rightarrow> icolor \<Rightarrow> icolor option
     \<Rightarrow> css_class list \<times> charElement \<times> store" where
  "foregroundPaint sv s element c isInv p resolvedBg bgOverride =
     (let palette =
            (let fg = (if isBold c \<and> p_fg p < 8 \<and> drawBoldTextInBrightColors sv
                       then p_fg p + 8 else p_fg p)
             in case applyMinimumContrast sv s element resolvedBg (ansi (colors sv) fg) c
                       bgOverride None of
                  (adjusted, element', s') \<Rightarrow>
                    ((if \<not> adjusted then [XTERM_FG_N fg] else []), element', s'))
      in case p_fgColorMode p of
           CM_P16 \<Rightarrow> palette
         | CM_P256 \<Rightarrow> palette
         | CM_RGB \<Rightarrow>
             (let col = toColor sv ((p_fg p div 65536) mod 256) ((p_fg p div 256) mod 256)
                          (p_fg p mod 256)
              in case applyMinimumContrast sv s element resolvedBg col c bgOverride
                        (p_fgOverride p) of
                   (adjusted, element', s') \<Rightarrow>
                     ([], (if \<not> adjusted then element'\<lparr>style_color := Some (CssHex (p_fg p))\<rparr>
                           else element'), s'))
         | CM_DEFAULT \<Rightarrow>
             (case applyMinimumContrast sv s element resolvedBg (foreground (colors sv)) c
                     bgOverride (p_fgOverride p) of
                (adjusted, element', s') \<Rightarrow>
                  ((if \<not> adjusted \<and> isInv then [XTERM_FG_N (INVERTED_DEFAULT_COLOR sv)] else []),
                   element', s')))"

definition closeChar :: "rowState \<Rightarrow> charElement list" where
  "closeChar st =
     (if charCellAmount st \<noteq> 0 then
        setLast (\<lambda>e. e\<lparr>textContent := charText st\<rparr>) (charElements st)
      else charElements st)"

text \<open>Lines 348 to 433 without the cursor relocation: the classes pushed before the foreground.\<close>

definition styleClasses :: "services \<Rightarrow> rowArgs \<Rightarrow> cellInfo \<Rightarrow> paint \<Rightarrow> css_class list" where
  "styleClasses sv a ci p =
     (let c = ci_cell ci
      in (if p_isTop p then [XTERM_DECORATION_TOP] else []) @
         (if \<not> isCursorHidden sv \<and> ci_isCursorCell ci \<and> isCursorInitialized sv
          then cursorClasses sv a else []) @
         (if isBold c then [BOLD_CLASS] else []) @
         (if isItalic c then [ITALIC_CLASS] else []) @
         (if isDim c then [DIM_CLASS] else []) @
         (if isUnderline c then [UNDERLINE_CLASS (extended_underlineStyle c)] else []) @
         (if isOverline c then [OVERLINE_CLASS] else []) @
         (if isStrikethrough c then [STRIKETHROUGH_CLASS] else []))"

text \<open>Lines 331 to 492.\<close>

definition openChar ::
  "services \<Rightarrow> factory \<Rightarrow> rowArgs \<Rightarrow> cellInfo \<Rightarrow> bool \<Rightarrow> paint \<Rightarrow> icolor \<Rightarrow> icolor option
     \<Rightarrow> rowState \<Rightarrow> rowState" where
  "openChar sv this a ci isInv p resolvedBg bgOverride st =
     (let c = ci_cell ci;
          closed = closeChar st;
          cursorX = (if ci_isJoined ci \<and> cur_cursorX st \<ge> cur_x st
                        \<and> cur_cursorX st \<le> ci_lastCharX ci
                     then cur_x st else cur_cursorX st);
          text = newCharText c;
          e1 = createCharSpan\<lparr>style_textDecorationColor := underlineColorStyle sv c\<rparr>;
          e2 = (if ci_isLinkHover ci then e1\<lparr>style_textDecoration := Some ''underline''\<rparr> else e1)
      in case foregroundPaint sv (shared st) e2 c isInv p resolvedBg bgOverride of
           (fgClasses, e3, s') \<Rightarrow>
             let classes = styleClasses sv a ci p @ fgClasses;
                 e4 = (if classes \<noteq> [] then e3\<lparr>className := classes\<rparr> else e3);
                 mergeable = (\<not> ci_isCursorCell ci \<and> \<not> ci_isJoined ci);
                 e5 = (if mergeable then e4 else e4\<lparr>textContent := text\<rparr>);
                 e6 = (if ci_spacing ci \<noteq> defaultSpacing this
                       then e5\<lparr>style_letterSpacing := Some (ci_spacing ci)\<rparr> else e5)
             in st\<lparr>charElements := closed @ [e6],
                   charCellAmount := (if mergeable then 0 + 1 else 0),
                   charText := text,
                   cur_cursorX := cursorX,
                   cur_x := ci_lastCharX ci,
                   shared := s'\<rparr>)"

subsection \<open>One iteration and the loop\<close>

text \<open>Lines 198 to 494, for a unit that was loaded.\<close>

definition renderUnit :: "services \<Rightarrow> factory \<Rightarrow> rowArgs \<Rightarrow> cellInfo \<Rightarrow> rowState \<Rightarrow> rowState" where
  "renderUnit sv this a ci st =
     (let mergeCharacters = canMergeCharacters sv st ci;
          mergeBackground = canMergeBackground st ci;
          st1 = (if mergeBackground
                 then st\<lparr>backgroundCellAmount := backgroundCellAmount st + ci_width ci\<rparr>
                 else st);
          st2 = (if mergeCharacters
                 then st1\<lparr>charText := charText st1 @ ci_chars ci,
                          charCellAmount := charCellAmount st1 + 1\<rparr>
                 else st1)
      in if \<not> mergeCharacters \<or> \<not> mergeBackground then
           let c = ci_cell ci;
               st3 = st2\<lparr>oldBg := cell_bg c, oldFg := cell_fg c, oldExt := extended_ext c,
                         oldLinkHover := ci_isLinkHover ci, oldSpacing := ci_spacing ci,
                         oldIsInSelection := ci_isInSelection ci,
                         oldDecorations := ci_decorations ci\<rparr>;
               isInv = isInverse c;
               p = resolvePaint sv a st3 ci;
               resolvedBg = resolveBg sv isInv p;
               bgOverride = dimBgOverride sv c resolvedBg p;
               st4 = (if \<not> mergeBackground then openBackground sv a ci isInv p st3 else st3)
           in if \<not> mergeCharacters
              then openChar sv this a ci isInv p resolvedBg bgOverride st4
              else st4
         else st2)"

text \<open>The body of the loop (lines 103 to 494), before \<^verbatim>\<open>x++\<close>.\<close>

definition cellBody :: "services \<Rightarrow> factory \<Rightarrow> rowArgs \<Rightarrow> rowState \<Rightarrow> rowState" where
  "cellBody sv this a st =
     (let st0 = st\<lparr>shared := (shared st)\<lparr>workCell := loadCell (arg_lineData a) (cur_x st)\<rparr>\<rparr>
      in if getWidth (workCell (shared st0)) = 0 then st0
         else case loadUnit sv this a st0 of (ci, st1) \<Rightarrow> renderUnit sv this a ci st1)"

text \<open>
  The loop \<^verbatim>\<open>for (let x = 0; x < lineLength; x++)\<close>. The body may move \<^verbatim>\<open>x\<close> to the
  last column of a joined range, which is any number the joiner service has put in the
  range, so the loop is not structural: an iteration either consumes a joined range or
  leaves \<^verbatim>\<open>x\<close> where it was.
\<close>

lemma openBackground_position [simp]:
  "joinedRanges (openBackground sv a ci isInv p st) = joinedRanges st"
  "cur_x (openBackground sv a ci isInv p st) = cur_x st"
  by (simp_all add: openBackground_def)

lemma openChar_position [simp]:
  "joinedRanges (openChar sv this a ci isInv p rb bo st) = joinedRanges st"
  "cur_x (openChar sv this a ci isInv p rb bo st) = ci_lastCharX ci"
  by (simp_all add: openChar_def Let_def split: prod.splits)

lemma joinedRanges_renderUnit:
  "joinedRanges (renderUnit sv this a ci st) = joinedRanges st"
  by (simp add: renderUnit_def Let_def)

lemma cur_x_renderUnit:
  "cur_x (renderUnit sv this a ci st) =
     (if canMergeCharacters sv st ci then cur_x st else ci_lastCharX ci)"
  by (simp add: renderUnit_def Let_def)

lemma loadUnit_joined:
  "loadUnit sv this a st = (ci, st1) \<Longrightarrow>
     cur_x st1 = cur_x st \<and>
     (case joinedAt st of
        None \<Rightarrow> \<not> ci_isJoined ci \<and> ci_lastCharX ci = cur_x st \<and> joinedRanges st1 = joinedRanges st
      | Some r \<Rightarrow> ci_isJoined ci \<and> joinedRanges st = r # joinedRanges st1)"
  by (auto simp add: loadUnit_def Let_def joinedAt_def
      split: prod.splits option.splits list.splits if_splits)

lemma joinedAt_workCell [simp]:
  "joinedAt (st\<lparr>shared := s\<rparr>) = joinedAt st"
  by (simp add: joinedAt_def split: list.splits)

lemma cellBody_progress:
  "length (joinedRanges (cellBody sv this a st)) < length (joinedRanges st) \<or>
   (joinedRanges (cellBody sv this a st) = joinedRanges st \<and>
    cur_x (cellBody sv this a st) = cur_x st)"
proof (cases "getWidth (loadCell (arg_lineData a) (cur_x st)) = 0")
  case True
  then show ?thesis by (simp add: cellBody_def)
next
  case False
  let ?loaded = "st\<lparr>shared := (shared st)\<lparr>workCell := loadCell (arg_lineData a) (cur_x st)\<rparr>\<rparr>"
  obtain ci st1 where lu: "loadUnit sv this a ?loaded = (ci, st1)" by force
  have cb: "cellBody sv this a st = renderUnit sv this a ci st1"
    using False lu by (simp add: cellBody_def)
  show ?thesis
  proof (cases "joinedAt st")
    case None
    with loadUnit_joined[OF lu] have "\<not> ci_isJoined ci" "ci_lastCharX ci = cur_x st"
      "joinedRanges st1 = joinedRanges st" "cur_x st1 = cur_x st" by simp_all
    then show ?thesis by (simp add: cb joinedRanges_renderUnit cur_x_renderUnit)
  next
    case (Some r)
    with loadUnit_joined[OF lu] have "joinedRanges st = r # joinedRanges st1" by simp
    then show ?thesis by (simp add: cb joinedRanges_renderUnit)
  qed
qed

function createRow_loop :: "services \<Rightarrow> factory \<Rightarrow> rowArgs \<Rightarrow> int \<Rightarrow> rowState \<Rightarrow> rowState" where
  "createRow_loop sv this a lineLength st =
     (if cur_x st < lineLength then
        createRow_loop sv this a lineLength
          ((cellBody sv this a st)\<lparr>cur_x := cur_x (cellBody sv this a st) + 1\<rparr>)
      else st)"
  by pat_completeness auto
termination
proof (relation "measures [\<lambda>(sv, this, a, lineLength, st). length (joinedRanges st),
                           \<lambda>(sv, this, a, lineLength, st). nat (lineLength - cur_x st)]")
  show "wf (measures [\<lambda>(sv, this, a, lineLength, st). length (joinedRanges st),
                      \<lambda>(sv, this, a, lineLength, st::rowState). nat (lineLength - cur_x st)])"
    by simp
next
  fix sv this a lineLength and st :: rowState
  assume "cur_x st < lineLength"
  then show "((sv, this, a, lineLength,
               (cellBody sv this a st)\<lparr>cur_x := cur_x (cellBody sv this a st) + 1\<rparr>),
              (sv, this, a, lineLength, st))
             \<in> measures [\<lambda>(sv, this, a, lineLength, st). length (joinedRanges st),
                         \<lambda>(sv, this, a, lineLength, st). nat (lineLength - cur_x st)]"
    using cellBody_progress[of sv this a st] by auto
qed

declare createRow_loop.simps [simp del]

subsection \<open>createRow\<close>

text \<open>Lines 75 to 98: the variables before the loop.\<close>

definition initialRowState :: "services \<Rightarrow> rowArgs \<Rightarrow> store \<Rightarrow> rowState" where
  "initialRowState sv a s =
     \<lparr>cur_x = 0, cur_cursorX = arg_cursorX a,
      joinedRanges = getJoinedCharacters sv (arg_row a),
      charElements = [], backgroundElements = [],
      charCellAmount = 0, charText = [], backgroundCellAmount = 0,
      oldBg = 0, oldFg = 0, oldExt = 0, oldLinkHover = False, oldSpacing = 0,
      oldIsInSelection = False, oldDecorations = [], shared = s\<rparr>"

text \<open>Lines 499 to 504: the text and the width of the runs still open.\<close>

definition flushRow :: "rowArgs \<Rightarrow> rowState \<Rightarrow> rowState" where
  "flushRow a st =
     st\<lparr>charElements :=
          (if charElements st \<noteq> [] \<and> charCellAmount st \<noteq> 0
           then setLast (\<lambda>e. e\<lparr>textContent := charText st\<rparr>) (charElements st)
           else charElements st),
        backgroundElements :=
          (if backgroundElements st \<noteq> [] \<and> backgroundCellAmount st \<noteq> 0
           then setLast (\<lambda>e. e\<lparr>bg_width :=
                           Some (real_of_int (backgroundCellAmount st) * arg_cellWidth a)\<rparr>)
                  (backgroundElements st)
           else backgroundElements st)\<rparr>"

datatype span = BgSpan bgElement | CharSpan charElement

definition createRow_state :: "services \<Rightarrow> factory \<Rightarrow> rowArgs \<Rightarrow> store \<Rightarrow> rowState" where
  "createRow_state sv this a s =
     flushRow a
       (createRow_loop sv this a
          (lineLength_of this (arg_lineData a) (arg_row a) (arg_isCursorRow a) (arg_cursorX a))
          (initialRowState sv a s))"

text \<open>
  The result of \<^verbatim>\<open>createRow\<close>: the returned array
  \<^verbatim>\<open>[...backgroundElements, ...charElements]\<close> and the shared state it leaves behind.
\<close>

definition createRow :: "services \<Rightarrow> factory \<Rightarrow> rowArgs \<Rightarrow> store \<Rightarrow> span list \<times> store" where
  "createRow sv this a s =
     (let st = createRow_state sv this a s
      in (map BgSpan (backgroundElements st) @ map CharSpan (charElements st), shared st))"

text \<open>
  The effective row length in the words of the specification (section 4.1): the trimmed
  length, unless the row is part of the selection's row range (then the full length),
  extended to include the cursor column on the cursor row.
\<close>

definition spec_effective_length :: "factory \<Rightarrow> bufferLine \<Rightarrow> int \<Rightarrow> bool \<Rightarrow> int \<Rightarrow> int" where
  "spec_effective_length this lineData row isCursorRow cursorX =
     (let inSelectedRows =
            (case (selectionStart this, selectionEnd this) of
               (Some start, Some end') \<Rightarrow> snd start \<le> row \<and> row \<le> snd end'
             | _ \<Rightarrow> False);
          len = (if inSelectedRows then line_length lineData else getNoBgTrimmedLength lineData)
      in if isCursorRow \<and> cursorX \<ge> len then cursorX + 1 else len)"

subsection \<open>Background span total and well-formed rows\<close>

text \<open>
  The sum of the pixel widths of the emitted background runs, and the contract of the
  collaborators under which it is related to the row length: widths are 0, 1 or 2, a
  wide cell is followed inside the row by its zero-width continuation cell, a zero-width
  cell follows a wide cell, and the joined ranges are sorted, non-overlapping, non-empty,
  inside the row, and start and end on unit boundaries.
\<close>

definition bgWidth :: "bgElement \<Rightarrow> real" where
  "bgWidth e = (case bg_width e of Some w \<Rightarrow> w | None \<Rightarrow> 0)"

definition bgSpanTotal :: "span list \<Rightarrow> real" where
  "bgSpanTotal spans = (\<Sum>s\<leftarrow>spans. case s of BgSpan e \<Rightarrow> bgWidth e | CharSpan e \<Rightarrow> 0)"

fun rangesOk :: "int \<Rightarrow> (int \<Rightarrow> int) \<Rightarrow> int \<Rightarrow> (int \<times> int) list \<Rightarrow> bool" where
  "rangesOk n w lo [] = True"
| "rangesOk n w lo (r # rs) =
     (lo \<le> fst r \<and> fst r < snd r \<and> snd r \<le> n \<and> w (fst r) \<noteq> 0
      \<and> (snd r < n \<longrightarrow> w (snd r) \<noteq> 0) \<and> rangesOk n w (snd r) rs)"

definition wellFormedRow :: "services \<Rightarrow> factory \<Rightarrow> rowArgs \<Rightarrow> bool" where
  "wellFormedRow sv this a =
     (let n = lineLength_of this (arg_lineData a) (arg_row a) (arg_isCursorRow a) (arg_cursorX a);
          w = (\<lambda>x. getWidth (loadCell (arg_lineData a) x))
      in 0 \<le> n
         \<and> (\<forall>x. 0 \<le> x \<and> x < n \<longrightarrow>
               (w x = 0 \<or> w x = 1 \<or> w x = 2)
               \<and> (w x = 2 \<longrightarrow> x + 1 < n \<and> w (x + 1) = 0)
               \<and> (w x = 0 \<longrightarrow> 0 < x \<and> w (x - 1) = 2))
         \<and> rangesOk n w 0 (getJoinedCharacters sv (arg_row a)))"

text \<open>The cell spans accounted for so far: the closed runs and the counter of the open one.\<close>

definition bgAccount :: "rowArgs \<Rightarrow> rowState \<Rightarrow> real" where
  "bgAccount a st =
     sum_list (map bgWidth (backgroundElements st))
       + real_of_int (backgroundCellAmount st) * arg_cellWidth a"

definition bgOpenInv :: "rowState \<Rightarrow> bool" where
  "bgOpenInv st =
     ((backgroundElements st = [] \<longrightarrow> backgroundCellAmount st = 0)
      \<and> (backgroundElements st \<noteq> [] \<longrightarrow> bg_width (last (backgroundElements st)) = None))"

text \<open>The invariant of the loop on a well-formed row.\<close>

definition coverInv :: "services \<Rightarrow> factory \<Rightarrow> rowArgs \<Rightarrow> int \<Rightarrow> rowState \<Rightarrow> bool" where
  "coverInv sv this a n st =
     (let w = (\<lambda>x. getWidth (loadCell (arg_lineData a) x))
      in 0 \<le> cur_x st \<and> cur_x st \<le> n
         \<and> rangesOk n w (cur_x st) (joinedRanges st)
         \<and> bgOpenInv st
         \<and> bgAccount a st =
             real_of_int (cur_x st + (if cur_x st < n \<and> w (cur_x st) = 0 then 1 else 0))
               * arg_cellWidth a)"

subsection \<open>Caches as memoization tables\<close>

text \<open>
  The contract of the collaborators under which a render does not depend on what the
  caches hold: \<^verbatim>\<open>color.ensureContrastRatio\<close> looks at the \<^verbatim>\<open>rgba\<close> values of its
  arguments only, every entry of the width cache is the measured width, and every entry of
  a contrast cache is what \<^verbatim>\<open>ensureContrastRatio\<close> gives for the pair at the ratio of
  that cache (the configured minimum, halved for the dim cache).
\<close>

definition rgbaOnly :: "services \<Rightarrow> bool" where
  "rgbaOnly sv =
     (\<forall>bg bg' fg fg' ratio. rgba bg = rgba bg' \<and> rgba fg = rgba fg' \<longrightarrow>
        ensureContrastRatio sv bg fg ratio = ensureContrastRatio sv bg' fg' ratio)"

definition storeConsistent :: "services \<Rightarrow> store \<Rightarrow> bool" where
  "storeConsistent sv s =
     ((\<forall>c bold italic w. widthCache s (c, bold, italic) = Some w \<longrightarrow>
          w = measureWidth sv c bold italic)
      \<and> (\<forall>bg fg v. contrastCache s (rgba bg, rgba fg) = Some v \<longrightarrow>
          v = ensureContrastRatio sv bg fg (minimumContrastRatio sv))
      \<and> (\<forall>bg fg v. halfContrastCache s (rgba bg, rgba fg) = Some v \<longrightarrow>
          v = ensureContrastRatio sv bg fg (minimumContrastRatio sv / 2)))"

text \<open>What the contrast check decides when no cache is involved.\<close>

definition contrastResult ::
  "services \<Rightarrow> charElement \<Rightarrow> icolor \<Rightarrow> icolor \<Rightarrow> cell \<Rightarrow> icolor option \<Rightarrow> icolor option
     \<Rightarrow> bool \<times> charElement" where
  "contrastResult sv element bg fg c bgOverride fgOverride =
     (if minimumContrastRatio sv = 1 \<or> excludeFromContrastRatioDemands (getCode c)
      then (False, element)
      else
        case ensureContrastRatio sv (orElse bgOverride bg) (orElse fgOverride fg)
               (minimumContrastRatio sv / (if isDim c then 2 else 1)) of
          Some col \<Rightarrow> (True, element\<lparr>style_color := Some (CssText (css col))\<rparr>)
        | None \<Rightarrow> (False, element))"

text \<open>Two states of the loop that agree on everything but the shared store.\<close>

definition sameRun :: "rowState \<Rightarrow> rowState \<Rightarrow> bool" where
  "sameRun st st2 = (st2 = st\<lparr>shared := shared st2\<rparr>)"

subsection \<open>Example rows\<close>

text \<open>
  Concrete collaborators for the examples below: a theme, services without decorations
  or joined ranges, a buffer line given by its cells, and an empty store. Every glyph
  measures 9 pixels and the cell is 9 pixels wide.
\<close>

definition mkColor :: "string \<Rightarrow> 32 word \<Rightarrow> icolor" where
  "mkColor n v = \<lparr>css = n, rgba = v\<rparr>"

definition plainCell :: "string \<Rightarrow> cell" where
  "plainCell s = \<lparr>getWidth = 1, getChars = s, getCode = 97, cell_fg = 0, cell_bg = 0,
     extended_ext = 0, extended_underlineStyle = 0, getFgColor = 0, getFgColorMode = CM_DEFAULT,
     getBgColor = 0, getBgColorMode = CM_DEFAULT, isBold = False, isItalic = False, isDim = False,
     isInverse = False, isInvisible = False, isUnderline = False, isOverline = False,
     isStrikethrough = False, isUnderlineColorDefault = True, isUnderlineColorRGB = False,
     getUnderlineColor = 0\<rparr>"

definition paletteCell :: "string \<Rightarrow> nat \<Rightarrow> cell" where
  "paletteCell s n = (plainCell s)\<lparr>cell_fg := n, getFgColor := n, getFgColorMode := CM_P16\<rparr>"

definition demoColors :: themeColors where
  "demoColors = \<lparr>foreground = mkColor ''#ffffff'' 0xFFFFFFFF, background = mkColor ''#000000'' 0xFF,
     ansi = (\<lambda>i. mkColor ''ansi'' (word_of_nat i)),
     selectionBackgroundOpaque = mkColor ''#0000ff'' 0x0000FFFF,
     selectionInactiveBackgroundOpaque = mkColor ''#000080'' 0x000080FF,
     selectionForeground = None\<rparr>"

definition demoServices :: services where
  "demoServices = \<lparr>colors = demoColors, isFocused = True, isCursorHidden = False,
     isCursorInitialized = True, minimumContrastRatio = 1, drawBoldTextInBrightColors = True,
     forEachDecorationAtCell = (\<lambda>x y. []), getJoinedCharacters = (\<lambda>y. []),
     toColor = (\<lambda>r g b. mkColor ''rgb'' (word_of_nat (((r * 256 + g) * 256 + b) * 256 + 255))),
     multiplyOpacity = (\<lambda>c k. c), ensureContrastRatio = (\<lambda>b f r. None),
     toColorRGB = (\<lambda>v. [v div 65536 mod 256, v div 256 mod 256, v mod 256]),
     INVERTED_DEFAULT_COLOR = 257, measureWidth = (\<lambda>s b i. 9 * real (length s))\<rparr>"

definition demoLine :: "cell list \<Rightarrow> bufferLine" where
  "demoLine cs = \<lparr>line_length = 80, getNoBgTrimmedLength = int (length cs),
     loadCell = (\<lambda>x. if 0 \<le> x \<and> x < int (length cs) then cs ! nat x else plainCell ''''),
     translateToString = (\<lambda>t s e. concat (map getChars (take (nat (e - s)) (drop (nat s) cs))))\<rparr>"

definition demoArgs :: "bufferLine \<Rightarrow> rowArgs" where
  "demoArgs l = \<lparr>arg_lineData = l, arg_row = 0, arg_isCursorRow = False, arg_cursorStyle = None,
     arg_cursorInactiveStyle = None, arg_cursorX = 0, arg_cursorBlink = False, arg_cellWidth = 9,
     arg_linkStart = -1, arg_linkEnd = -1\<rparr>"

definition emptyStore :: store where
  "emptyStore = \<lparr>workCell = plainCell '''', contrastCache = (\<lambda>k. None), halfContrastCache = (\<lambda>k. None),
     widthCache = (\<lambda>k. None)\<rparr>"

definition selectionServices :: services where
  "selectionServices =
     demoServices\<lparr>colors := demoColors\<lparr>selectionForeground := Some (mkColor ''#ffff00'' 0xFFFF00FF)\<rparr>\<rparr>"

definition plainRowArgs :: rowArgs where
  "plainRowArgs = demoArgs (demoLine [plainCell ''a'', plainCell ''b''])"

text \<open>A cursor at column 2 on a row of one cell.\<close>

definition cursorBeyondArgs :: rowArgs where
  "cursorBeyondArgs =
     (demoArgs (demoLine [plainCell ''a'']))\<lparr>arg_isCursorRow := True, arg_cursorX := 2\<rparr>"

text \<open>The loop variables after the cell \<open>a\<close> of a plain row has been rendered at column 0.\<close>

definition openRunState :: rowState where
  "openRunState =
     \<lparr>cur_x = 1, cur_cursorX = 0, joinedRanges = [],
      charElements = [createCharSpan],
      backgroundElements = [createBgSpan\<lparr>bg_classList := [XTERM_BG]\<rparr>],
      charCellAmount = 1, charText = ''a'', backgroundCellAmount = 1,
      oldBg = 0, oldFg = 0, oldExt = 0, oldLinkHover = False, oldSpacing = 0,
      oldIsInSelection = False, oldDecorations = [], shared = emptyStore\<rparr>"

definition selectedFactory :: factory where
  "selectedFactory = handleSelectionChanged newFactory (Some (0, 0)) (Some (2, 0)) False"

definition selectionRowArgs :: rowArgs where
  "selectionRowArgs =
     demoArgs ((demoLine [paletteCell ''a'' 1, paletteCell ''b'' 2])\<lparr>line_length := 2\<rparr>)"

definition paletteRowArgs :: rowArgs where
  "paletteRowArgs = demoArgs (demoLine [plainCell ''a'', paletteCell ''b'' 2])"

definition uniformCursorArgs :: rowArgs where
  "uniformCursorArgs =
     (demoArgs ((demoLine [])\<lparr>loadCell := (\<lambda>x. plainCell ''a''), getNoBgTrimmedLength := 3\<rparr>))
       \<lparr>arg_isCursorRow := True, arg_cursorX := 0\<rparr>"

definition topDecoration :: decoration where
  "topDecoration = \<lparr>deco_ref = 1, layer = Some ''top'',
     backgroundColorRGB = Some (mkColor ''#ff0000'' 0xFF0000FF), foregroundColorRGB = None\<rparr>"

definition bottomDecoration :: decoration where
  "bottomDecoration = \<lparr>deco_ref = 2, layer = Some ''bottom'',
     backgroundColorRGB = Some (mkColor ''#00ff00'' 0x00FF00FF), foregroundColorRGB = None\<rparr>"

definition decoratedServices :: services where
  "decoratedServices =
     demoServices\<lparr>forEachDecorationAtCell := (\<lambda>x y. [topDecoration, bottomDecoration])\<rparr>"

definition singleCellArgs :: rowArgs where
  "singleCellArgs = demoArgs (demoLine [plainCell ''a''])"

definition joinedServices :: services where
  "joinedServices = demoServices\<lparr>getJoinedCharacters := (\<lambda>y. [(0, 2)])\<rparr>"

definition ligatureArgs :: "int \<Rightarrow> rowArgs" where
  "ligatureArgs cursorX =
     (demoArgs (demoLine [plainCell ''f'', plainCell ''i'']))
       \<lparr>arg_isCursorRow := True, arg_cursorX := cursorX\<rparr>"

definition contrastServices :: services where
  "contrastServices =
     demoServices\<lparr>minimumContrastRatio := 4.5,
       ensureContrastRatio := (\<lambda>bg fg ratio. Some (mkColor ''computed'' 1))\<rparr>"

definition dimCellArgs :: rowArgs where
  "dimCellArgs = demoArgs (demoLine [(plainCell ''d'')\<lparr>isDim := True\<rparr>])"

definition cachedStore :: store where
  "cachedStore =
     emptyStore\<lparr>contrastCache := (\<lambda>k. Some (Some (mkColor ''cached'' 2))),
       halfContrastCache := (\<lambda>k. Some (Some (mkColor ''cached'' 2)))\<rparr>"

definition wideCell :: cell where
  "wideCell = (plainCell ''W'')\<lparr>getWidth := 2, cell_bg := 1, getBgColor := 1,
     getBgColorMode := CM_P16\<rparr>"

definition continuationCell :: cell where
  "continuationCell = (plainCell [])\<lparr>getWidth := 0, cell_bg := 1, getBgColor := 1,
     getBgColorMode := CM_P16\<rparr>"

text \<open>A wide character whose continuation cell lies beyond the trimmed length.\<close>

definition wideEndArgs :: rowArgs where
  "wideEndArgs =
     demoArgs ((demoLine [wideCell, continuationCell])\<lparr>getNoBgTrimmedLength := 1\<rparr>)"

text \<open>A wide character on columns 0 and 1, then two cells joined into one unit.\<close>

definition wideJoinedArgs :: rowArgs where
  "wideJoinedArgs =
     demoArgs ((demoLine [])\<lparr>getNoBgTrimmedLength := 4,
       loadCell := (\<lambda>x. if x = 0 then wideCell else if x = 1 then continuationCell
                         else plainCell ''a'')\<rparr>)"

definition wideJoinedServices :: services where
  "wideJoinedServices = demoServices\<lparr>getJoinedCharacters := (\<lambda>y. [(2, 4)])\<rparr>"

lemmas model_defs = createRow_def createRow_state_def flushRow_def initialRowState_def
  cellBody_def loadUnit_def renderUnit_def openChar_def openBackground_def
  closeChar_def closeBackground_def setLast_def newBackgroundElement_def styleClasses_def
  cursorClasses_def newCharText_def underlineColorStyle_def foregroundPaint_def
  applyMinimumContrast_def contrastLookup_def getContrastCache_def setContrastCache_def orElse_def
  excludeFromContrastRatioDemands_def isPowerlineGlyph_def isBoxOrBlockGlyph_def
  resolvePaint_def resolveBg_def dimBgOverride_def applySelection_def applyDecorations_def
  decorationOverride_def initialPaint_def rgb24_def canMergeCharacters_def canMergeBackground_def
  isSameDecorations_def joinedAt_def charsToRender_def isLinkHoverAt_def widthCache_get_def
  JoinedCellData_def WHITESPACE_CELL_CHAR_def NBSP_def createBgSpan_def createCharSpan_def
  lineLength_of_def isRowInSelection_def isCellInSelection_def handleSelectionChanged_def
  spec_effective_length_def

lemmas demo_defs = demoServices_def demoColors_def newFactory_def demoArgs_def demoLine_def
  plainCell_def paletteCell_def emptyStore_def mkColor_def selectionServices_def openRunState_def
  plainRowArgs_def cursorBeyondArgs_def
  selectedFactory_def selectionRowArgs_def paletteRowArgs_def uniformCursorArgs_def
  topDecoration_def bottomDecoration_def decoratedServices_def singleCellArgs_def
  joinedServices_def ligatureArgs_def contrastServices_def dimCellArgs_def cachedStore_def
  wideCell_def continuationCell_def wideEndArgs_def wideJoinedArgs_def wideJoinedServices_def

section \<open>Properties\<close>

subsection \<open>Frame lemmas for one iteration\<close>

lemma length_setLast [simp]: "length (setLast f xs) = length xs"
  by (simp add: setLast_def)

lemma length_closeChar [simp]: "length (closeChar st) = length (charElements st)"
  by (simp add: closeChar_def)

lemma length_closeBackground [simp]: "length (closeBackground a st) = length (backgroundElements st)"
  by (simp add: closeBackground_def)

lemma sameDecorationRefs_iff:
  "length decos1 = length decos2 \<Longrightarrow>
     sameDecorationRefs decos1 decos2 = (map deco_ref decos1 = map deco_ref decos2)"
  by (induction decos1 decos2 rule: sameDecorationRefs.induct) auto

lemma isSameDecorations_iff:
  "isSameDecorations decos1 decos2 = (map deco_ref decos1 = map deco_ref decos2)"
proof (cases "length decos1 = length decos2")
  case True
  then show ?thesis by (auto simp add: isSameDecorations_def sameDecorationRefs_iff)
next
  case False
  then have "map deco_ref decos1 \<noteq> map deco_ref decos2" by (metis length_map)
  with False show ?thesis by (auto simp add: isSameDecorations_def)
qed

lemma isSameDecorations_pairwise:
  "isSameDecorations decos1 decos2 =
     (length decos1 = length decos2 \<and>
      (\<forall>i<length decos1. deco_ref (decos1 ! i) = deco_ref (decos2 ! i)))"
  by (auto simp add: isSameDecorations_iff list_eq_iff_nth_eq)

lemma loadUnit_state:
  "loadUnit sv this a st = (ci, st1) \<Longrightarrow>
     st1 = st\<lparr>joinedRanges := joinedRanges st1, shared := shared st1\<rparr>"
  by (auto simp add: loadUnit_def Let_def split: prod.splits option.splits)

lemma canMergeCharacters_frame [simp]:
  "canMergeCharacters sv (st\<lparr>joinedRanges := jr, shared := s'\<rparr>) ci = canMergeCharacters sv st ci"
  by (simp add: canMergeCharacters_def)

lemma canMergeBackground_frame [simp]:
  "canMergeBackground (st\<lparr>joinedRanges := jr, shared := s'\<rparr>) ci = canMergeBackground st ci"
  by (simp add: canMergeBackground_def)

lemma openBackground_char_fields [simp]:
  "charElements (openBackground sv a ci isInv p st) = charElements st"
  "charText (openBackground sv a ci isInv p st) = charText st"
  "charCellAmount (openBackground sv a ci isInv p st) = charCellAmount st"
  "cur_cursorX (openBackground sv a ci isInv p st) = cur_cursorX st"
  "shared (openBackground sv a ci isInv p st) = shared st"
  by (simp_all add: openBackground_def)

lemma openChar_background_fields [simp]:
  "backgroundElements (openChar sv this a ci isInv p rb bo st) = backgroundElements st"
  "backgroundCellAmount (openChar sv this a ci isInv p rb bo st) = backgroundCellAmount st"
  by (simp_all add: openChar_def Let_def split: prod.splits)

lemma openChar_char_fields:
  "length (charElements (openChar sv this a ci isInv p rb bo st)) = length (charElements st) + 1"
  "charCellAmount (openChar sv this a ci isInv p rb bo st) =
     (if \<not> ci_isCursorCell ci \<and> \<not> ci_isJoined ci then 1 else 0)"
  "charText (openChar sv this a ci isInv p rb bo st) = newCharText (ci_cell ci)"
  by (simp_all add: openChar_def Let_def closeChar_def split: prod.splits)

lemma length_charElements_renderUnit:
  "length (charElements (renderUnit sv this a ci st)) =
     (if canMergeCharacters sv st ci then length (charElements st)
      else length (charElements st) + 1)"
  by (simp add: renderUnit_def Let_def openChar_char_fields)

lemma renderUnit_merge_characters:
  "canMergeCharacters sv st ci \<Longrightarrow>
     charElements (renderUnit sv this a ci st) = charElements st \<and>
     charText (renderUnit sv this a ci st) = charText st @ ci_chars ci \<and>
     charCellAmount (renderUnit sv this a ci st) = charCellAmount st + 1"
  by (simp add: renderUnit_def Let_def)

lemma charCellAmount_renderUnit:
  "charCellAmount (renderUnit sv this a ci st) =
     (if canMergeCharacters sv st ci then charCellAmount st + 1
      else if \<not> ci_isCursorCell ci \<and> \<not> ci_isJoined ci then 1 else 0)"
  by (simp add: renderUnit_def Let_def openChar_char_fields)

lemma backgroundElements_renderUnit:
  "backgroundElements (renderUnit sv this a ci st) =
     (if canMergeBackground st ci then backgroundElements st
      else closeBackground a st @
           [newBackgroundElement sv a (cur_x st) (isInverse (ci_cell ci)) (resolvePaint sv a st ci)])"
  by (simp add: renderUnit_def Let_def openBackground_def closeBackground_def resolvePaint_def)

lemma backgroundCellAmount_renderUnit:
  "backgroundCellAmount (renderUnit sv this a ci st) =
     (if canMergeBackground st ci then backgroundCellAmount st + ci_width ci else ci_width ci)"
  by (simp add: renderUnit_def Let_def openBackground_def)

lemma cellBody_visited:
  assumes "getWidth (loadCell (arg_lineData a) (cur_x st)) \<noteq> 0"
    and "loadUnit sv this a
           (st\<lparr>shared := (shared st)\<lparr>workCell := loadCell (arg_lineData a) (cur_x st)\<rparr>\<rparr>) = (ci, st1)"
  shows "cellBody sv this a st = renderUnit sv this a ci st1"
  using assms by (simp add: cellBody_def)

lemma cellBody_skipped:
  assumes "getWidth (loadCell (arg_lineData a) (cur_x st)) = 0"
  shows "cellBody sv this a st =
           st\<lparr>shared := (shared st)\<lparr>workCell := loadCell (arg_lineData a) (cur_x st)\<rparr>\<rparr>"
  using assms by (simp add: cellBody_def)

text \<open>What a visited cell does to the text run and to the background run.\<close>

lemma cellBody_text_run:
  assumes visited: "getWidth (loadCell (arg_lineData a) (cur_x st)) \<noteq> 0"
    and unit: "loadUnit sv this a
           (st\<lparr>shared := (shared st)\<lparr>workCell := loadCell (arg_lineData a) (cur_x st)\<rparr>\<rparr>) = (ci, st1)"
  shows "length (charElements (cellBody sv this a st)) =
           (if canMergeCharacters sv st ci then length (charElements st)
            else length (charElements st) + 1)"
    and "canMergeCharacters sv st ci \<Longrightarrow>
           charElements (cellBody sv this a st) = charElements st \<and>
           charText (cellBody sv this a st) = charText st @ ci_chars ci \<and>
           charCellAmount (cellBody sv this a st) = charCellAmount st + 1"
    and "charCellAmount (cellBody sv this a st) =
           (if canMergeCharacters sv st ci then charCellAmount st + 1
            else if \<not> ci_isCursorCell ci \<and> \<not> ci_isJoined ci then 1 else 0)"
proof -
  let ?loaded = "st\<lparr>shared := (shared st)\<lparr>workCell := loadCell (arg_lineData a) (cur_x st)\<rparr>\<rparr>"
  have cb: "cellBody sv this a st = renderUnit sv this a ci st1"
    using cellBody_visited[OF visited unit] .
  have st1: "st1 = st\<lparr>joinedRanges := joinedRanges st1, shared := shared st1\<rparr>"
    using loadUnit_state[OF unit] by simp
  have m: "canMergeCharacters sv st1 ci = canMergeCharacters sv st ci"
    by (subst st1) simp
  have f: "charElements st1 = charElements st" "charText st1 = charText st"
    "charCellAmount st1 = charCellAmount st"
    by (subst st1, simp)+
  show "length (charElements (cellBody sv this a st)) =
           (if canMergeCharacters sv st ci then length (charElements st)
            else length (charElements st) + 1)"
    by (simp add: cb length_charElements_renderUnit m f)
  show "canMergeCharacters sv st ci \<Longrightarrow>
           charElements (cellBody sv this a st) = charElements st \<and>
           charText (cellBody sv this a st) = charText st @ ci_chars ci \<and>
           charCellAmount (cellBody sv this a st) = charCellAmount st + 1"
    using renderUnit_merge_characters[of sv st1 ci this a] by (simp add: cb m f)
  show "charCellAmount (cellBody sv this a st) =
           (if canMergeCharacters sv st ci then charCellAmount st + 1
            else if \<not> ci_isCursorCell ci \<and> \<not> ci_isJoined ci then 1 else 0)"
    by (simp add: cb charCellAmount_renderUnit m f)
qed

lemma cellBody_background_run:
  assumes visited: "getWidth (loadCell (arg_lineData a) (cur_x st)) \<noteq> 0"
    and unit: "loadUnit sv this a
           (st\<lparr>shared := (shared st)\<lparr>workCell := loadCell (arg_lineData a) (cur_x st)\<rparr>\<rparr>) = (ci, st1)"
  shows "backgroundElements (cellBody sv this a st) =
           (if canMergeBackground st ci then backgroundElements st
            else closeBackground a st @
                 [newBackgroundElement sv a (cur_x st) (isInverse (ci_cell ci))
                    (resolvePaint sv a st ci)])"
    and "backgroundCellAmount (cellBody sv this a st) =
           (if canMergeBackground st ci then backgroundCellAmount st + ci_width ci
            else ci_width ci)"
proof -
  have cb: "cellBody sv this a st = renderUnit sv this a ci st1"
    using cellBody_visited[OF visited unit] .
  have st1: "st1 = st\<lparr>joinedRanges := joinedRanges st1, shared := shared st1\<rparr>"
    using loadUnit_state[OF unit] by simp
  have m: "canMergeBackground st1 ci = canMergeBackground st ci"
    by (subst st1) simp
  have f: "backgroundElements st1 = backgroundElements st"
    "backgroundCellAmount st1 = backgroundCellAmount st" "cur_x st1 = cur_x st"
    by (subst st1, simp)+
  have c: "closeBackground a st1 = closeBackground a st"
    by (simp add: closeBackground_def f)
  have p: "resolvePaint sv a st1 ci = resolvePaint sv a st ci"
    by (simp add: resolvePaint_def f)
  show "backgroundElements (cellBody sv this a st) =
           (if canMergeBackground st ci then backgroundElements st
            else closeBackground a st @
                 [newBackgroundElement sv a (cur_x st) (isInverse (ci_cell ci))
                    (resolvePaint sv a st ci)])"
    by (simp add: cb backgroundElements_renderUnit m f c p)
  show "backgroundCellAmount (cellBody sv this a st) =
           (if canMergeBackground st ci then backgroundCellAmount st + ci_width ci
            else ci_width ci)"
    by (simp add: cb backgroundCellAmount_renderUnit m f)
qed

lemma lineLength_of_spec:
  "lineLength_of this lineData row isCursorRow cursorX =
     spec_effective_length this lineData row isCursorRow cursorX"
  by (auto simp add: lineLength_of_def spec_effective_length_def isRowInSelection_def Let_def
      split: option.splits)

lemma cellBody_no_ranges:
  assumes "joinedRanges st = []"
  shows "joinedRanges (cellBody sv this a st) = [] \<and> cur_x (cellBody sv this a st) = cur_x st"
  using cellBody_progress[of sv this a st] assms by simp

lemma createRow_loop_no_ranges:
  "joinedRanges st = [] \<Longrightarrow> cur_x st \<le> n \<Longrightarrow> cur_x (createRow_loop sv this a n st) = n"
proof (induction sv this a n st rule: createRow_loop.induct)
  case (1 sv this a lineLength st)
  show ?case
  proof (cases "cur_x st < lineLength")
    case True
    let ?st' = "(cellBody sv this a st)\<lparr>cur_x := cur_x (cellBody sv this a st) + 1\<rparr>"
    from cellBody_no_ranges[OF "1.prems"(1)] True
    have "joinedRanges ?st' = []" "cur_x ?st' \<le> lineLength" by simp_all
    from "1.IH"[OF True this] True show ?thesis
      by (subst createRow_loop.simps) simp
  next
    case False
    with "1.prems" show ?thesis by (subst createRow_loop.simps) simp
  qed
qed

lemma createRow_loop_stop:
  "\<not> cur_x st < n \<Longrightarrow> createRow_loop sv this a n st = st"
  by (subst createRow_loop.simps) simp

subsection \<open>Effective row length\<close>

text \<open>
  C3: the number of columns a row render iterates is the trimmed length of the line
  (trailing default-background cells ignored), except that it is the full logical length
  when the row lies in the row range of the active selection, and it is extended to
  \<open>cursorX + 1\<close> on the cursor row when the cursor column is at or beyond that length.
  The loop of \<^verbatim>\<open>createRow\<close> runs with exactly this bound, and without joined ranges
  the loop index ends at it.
\<close>

theorem effective_row_length:
  "lineLength_of this (arg_lineData a) (arg_row a) (arg_isCursorRow a) (arg_cursorX a) =
     spec_effective_length this (arg_lineData a) (arg_row a) (arg_isCursorRow a) (arg_cursorX a)
   \<and> createRow_state sv this a s =
       flushRow a (createRow_loop sv this a
         (spec_effective_length this (arg_lineData a) (arg_row a) (arg_isCursorRow a) (arg_cursorX a))
         (initialRowState sv a s))
   \<and> (getJoinedCharacters sv (arg_row a) = [] \<longrightarrow>
        cur_x (createRow_state sv this a s) =
          max 0 (spec_effective_length this (arg_lineData a) (arg_row a) (arg_isCursorRow a)
                   (arg_cursorX a)))"
proof -
  let ?n = "spec_effective_length this (arg_lineData a) (arg_row a) (arg_isCursorRow a) (arg_cursorX a)"
  have a: "lineLength_of this (arg_lineData a) (arg_row a) (arg_isCursorRow a) (arg_cursorX a) = ?n"
    by (rule lineLength_of_spec)
  have b: "createRow_state sv this a s =
             flushRow a (createRow_loop sv this a ?n (initialRowState sv a s))"
    by (simp add: createRow_state_def a)
  have c: "cur_x (createRow_state sv this a s) = max 0 ?n"
    if nr: "getJoinedCharacters sv (arg_row a) = []"
  proof (cases "0 \<le> ?n")
    case True
    have "cur_x (createRow_loop sv this a ?n (initialRowState sv a s)) = ?n"
      by (rule createRow_loop_no_ranges) (simp_all add: initialRowState_def nr True)
    with True show ?thesis by (simp add: b flushRow_def)
  next
    case False
    then have "createRow_loop sv this a ?n (initialRowState sv a s) = initialRowState sv a s"
      by (intro createRow_loop_stop) (simp add: initialRowState_def)
    with False show ?thesis by (simp add: b flushRow_def initialRowState_def)
  qed
  from a b c show ?thesis by blast
qed

theorem effective_row_length_witness:
  "lineLength_of newFactory (arg_lineData cursorBeyondArgs) (arg_row cursorBeyondArgs)
     (arg_isCursorRow cursorBeyondArgs) (arg_cursorX cursorBeyondArgs) = 3
   \<and> cur_x (createRow_state demoServices newFactory cursorBeyondArgs emptyStore) = 3"
proof -
  have len: "spec_effective_length newFactory (arg_lineData cursorBeyondArgs)
      (arg_row cursorBeyondArgs) (arg_isCursorRow cursorBeyondArgs)
      (arg_cursorX cursorBeyondArgs) = 3"
    by (simp add: spec_effective_length_def demo_defs)
  have none: "getJoinedCharacters demoServices (arg_row cursorBeyondArgs) = []"
    by (simp add: demo_defs)
  note t = effective_row_length[of newFactory cursorBeyondArgs demoServices emptyStore]
  from t have "lineLength_of newFactory (arg_lineData cursorBeyondArgs)
      (arg_row cursorBeyondArgs) (arg_isCursorRow cursorBeyondArgs)
      (arg_cursorX cursorBeyondArgs) = 3"
    unfolding len by (rule conjunct1)
  moreover from t none
  have "cur_x (createRow_state demoServices newFactory cursorBeyondArgs emptyStore) = max 0 3"
    unfolding len by blast
  ultimately show ?thesis by simp
qed

subsection \<open>Selection membership\<close>

text \<open>
  C8: the cell-level selection predicate is the one of the specification. In
  column-select mode a cell is inside iff its row is in the row range of the selection and
  its column is in \<open>[leftCol, rightCol)\<close>, \<open>leftCol\<close> being the lesser endpoint column; in
  stream mode iff it is on a fully enclosed middle row, or on a single-row selection
  within \<open>[startCol, endCol)\<close>, or on the end row before \<open>endCol\<close>, or on the start row at
  or after \<open>startCol\<close> (the last two for a selection of several rows). Without both
  endpoints no cell is inside.
\<close>

theorem isCellInSelection_matches_spec:
  "isCellInSelection this x y =
     (case (selectionStart this, selectionEnd this) of
        (Some start, Some end') \<Rightarrow>
          if columnSelectMode this then spec_cell_in_column_selection start end' x y
          else spec_cell_in_stream_selection start end' x y
      | _ \<Rightarrow> False)"
  by (auto simp add: isCellInSelection_def spec_cell_in_column_selection_def
      spec_cell_in_stream_selection_def Let_def split: option.splits)

theorem isCellInSelection_matches_spec_witness:
  "isCellInSelection (handleSelectionChanged newFactory (Some (5, 1)) (Some (2, 3)) True) 3 2
   \<and> \<not> isCellInSelection (handleSelectionChanged newFactory (Some (5, 1)) (Some (2, 3)) False) 1 1"
  using isCellInSelection_matches_spec[of
      "handleSelectionChanged newFactory (Some (5, 1)) (Some (2, 3)) True" 3 2]
    isCellInSelection_matches_spec[of
      "handleSelectionChanged newFactory (Some (5, 1)) (Some (2, 3)) False" 1 1]
  by (simp add: handleSelectionChanged_def newFactory_def spec_cell_in_column_selection_def
      spec_cell_in_stream_selection_def)

subsection \<open>Text merge eligibility\<close>

text \<open>
  C1: for every cell visited during a row render (a cell of non-zero width, with \<open>ci\<close>
  what the iteration computes about it), the open text run is extended by the cell (no
  new element, the text and the counter of the run grow by the cell) if and only if: a
  text run is open (an element exists and its counter of mergeable cells is not zero);
  the cell and the previous run cell are both in selection and a selection foreground is
  configured, or the raw foreground attribute equals the remembered one; the extended
  attribute fingerprint, the link-hover state and the letter-spacing are unchanged; the
  decoration list has the same length and pairwise the same references; the cell is not
  the cursor cell and not a joined unit.
\<close>

theorem text_run_extended_iff:
  assumes visited: "getWidth (loadCell (arg_lineData a) (cur_x st)) \<noteq> 0"
    and unit: "loadUnit sv this a
           (st\<lparr>shared := (shared st)\<lparr>workCell := loadCell (arg_lineData a) (cur_x st)\<rparr>\<rparr>) = (ci, st1)"
  shows "(charElements (cellBody sv this a st) = charElements st
          \<and> charText (cellBody sv this a st) = charText st @ ci_chars ci
          \<and> charCellAmount (cellBody sv this a st) = charCellAmount st + 1)
         \<longleftrightarrow>
         (charElements st \<noteq> [] \<and> charCellAmount st \<noteq> 0
          \<and> ((ci_isInSelection ci \<and> oldIsInSelection st \<and> selectionForeground (colors sv) \<noteq> None)
             \<or> cell_fg (ci_cell ci) = oldFg st)
          \<and> extended_ext (ci_cell ci) = oldExt st
          \<and> ci_isLinkHover ci = oldLinkHover st
          \<and> (length (ci_decorations ci) = length (oldDecorations st)
             \<and> (\<forall>i<length (ci_decorations ci).
                   deco_ref (ci_decorations ci ! i) = deco_ref (oldDecorations st ! i)))
          \<and> ci_spacing ci = oldSpacing st
          \<and> \<not> ci_isCursorCell ci
          \<and> \<not> ci_isJoined ci)"
proof -
  have cond: "canMergeCharacters sv st ci \<longleftrightarrow>
         (charElements st \<noteq> [] \<and> charCellAmount st \<noteq> 0
          \<and> ((ci_isInSelection ci \<and> oldIsInSelection st \<and> selectionForeground (colors sv) \<noteq> None)
             \<or> cell_fg (ci_cell ci) = oldFg st)
          \<and> extended_ext (ci_cell ci) = oldExt st
          \<and> ci_isLinkHover ci = oldLinkHover st
          \<and> (length (ci_decorations ci) = length (oldDecorations st)
             \<and> (\<forall>i<length (ci_decorations ci).
                   deco_ref (ci_decorations ci ! i) = deco_ref (oldDecorations st ! i)))
          \<and> ci_spacing ci = oldSpacing st
          \<and> \<not> ci_isCursorCell ci
          \<and> \<not> ci_isJoined ci)"
    unfolding canMergeCharacters_def isSameDecorations_pairwise by (rule refl)
  show ?thesis
  proof (cases "canMergeCharacters sv st ci")
    case True
    with cellBody_text_run(2)[OF visited unit] cond show ?thesis by blast
  next
    case False
    with cellBody_text_run(1)[OF visited unit]
    have "length (charElements (cellBody sv this a st)) \<noteq> length (charElements st)" by simp
    then have "charElements (cellBody sv this a st) \<noteq> charElements st" by auto
    with False cond show ?thesis by blast
  qed
qed

theorem text_run_extended_iff_witness:
  "charElements (cellBody demoServices newFactory plainRowArgs openRunState)
     = charElements openRunState
   \<and> charText (cellBody demoServices newFactory plainRowArgs openRunState) = ''ab''
   \<and> charCellAmount (cellBody demoServices newFactory plainRowArgs openRunState) = 2"
proof -
  let ?loaded = "openRunState\<lparr>shared := (shared openRunState)
                \<lparr>workCell := loadCell (arg_lineData plainRowArgs) (cur_x openRunState)\<rparr>\<rparr>"
  let ?ci = "fst (loadUnit demoServices newFactory plainRowArgs ?loaded)"
  have visited: "getWidth (loadCell (arg_lineData plainRowArgs) (cur_x openRunState)) \<noteq> 0"
    by (simp add: demo_defs)
  have unit: "loadUnit demoServices newFactory plainRowArgs ?loaded =
                (?ci, snd (loadUnit demoServices newFactory plainRowArgs ?loaded))"
    by simp
  have "charElements (cellBody demoServices newFactory plainRowArgs openRunState)
          = charElements openRunState
        \<and> charText (cellBody demoServices newFactory plainRowArgs openRunState)
          = charText openRunState @ ci_chars ?ci
        \<and> charCellAmount (cellBody demoServices newFactory plainRowArgs openRunState)
          = charCellAmount openRunState + 1"
    by (rule text_run_extended_iff[OF visited unit, THEN iffD2])
       (simp add: loadUnit_def joinedAt_def charsToRender_def isLinkHoverAt_def
          widthCache_get_def isCellInSelection_def WHITESPACE_CELL_CHAR_def NBSP_def
          createCharSpan_def Let_def demo_defs)
  moreover have "ci_chars ?ci = ''b''"
    by (simp add: loadUnit_def joinedAt_def charsToRender_def widthCache_get_def
        WHITESPACE_CELL_CHAR_def NBSP_def Let_def demo_defs)
  moreover have "charText openRunState = ''a''" "charCellAmount openRunState = 1"
    by (simp_all add: openRunState_def)
  ultimately show ?thesis by simp
qed

subsection \<open>Background merge eligibility\<close>

text \<open>
  C2, as amended: for every cell visited during a row render the open background run is
  extended by the cell (no new element, the counter grows by the width of the unit) if and
  only if a background run is open, the decoration list is unchanged, and either the cell
  and the previous run cell are both in selection, or neither is and the raw background
  attribute is unchanged. A raw foreground attribute that differs from the remembered
  one forces a new text run at the cell unless the cell and the previous run cell are both
  in selection and a selection foreground is configured; the open background run
  continues across the cell when decorations, selection membership and the raw background
  attribute are unchanged.
\<close>

theorem background_run_extended_iff:
  assumes visited: "getWidth (loadCell (arg_lineData a) (cur_x st)) \<noteq> 0"
    and unit: "loadUnit sv this a
           (st\<lparr>shared := (shared st)\<lparr>workCell := loadCell (arg_lineData a) (cur_x st)\<rparr>\<rparr>) = (ci, st1)"
  shows "((backgroundElements (cellBody sv this a st) = backgroundElements st
           \<and> backgroundCellAmount (cellBody sv this a st) = backgroundCellAmount st + ci_width ci)
          \<longleftrightarrow>
          (backgroundElements st \<noteq> [] \<and> backgroundCellAmount st \<noteq> 0
           \<and> (length (ci_decorations ci) = length (oldDecorations st)
              \<and> (\<forall>i<length (ci_decorations ci).
                    deco_ref (ci_decorations ci ! i) = deco_ref (oldDecorations st ! i)))
           \<and> ((ci_isInSelection ci \<and> oldIsInSelection st)
              \<or> (\<not> ci_isInSelection ci \<and> \<not> oldIsInSelection st
                  \<and> cell_bg (ci_cell ci) = oldBg st))))
         \<and> (cell_fg (ci_cell ci) \<noteq> oldFg st
             \<and> \<not> (ci_isInSelection ci \<and> oldIsInSelection st
                    \<and> selectionForeground (colors sv) \<noteq> None)
            \<longrightarrow> length (charElements (cellBody sv this a st)) = length (charElements st) + 1)
         \<and> (backgroundElements st \<noteq> [] \<and> backgroundCellAmount st \<noteq> 0
             \<and> (length (ci_decorations ci) = length (oldDecorations st)
                \<and> (\<forall>i<length (ci_decorations ci).
                      deco_ref (ci_decorations ci ! i) = deco_ref (oldDecorations st ! i)))
             \<and> ci_isInSelection ci = oldIsInSelection st
             \<and> cell_bg (ci_cell ci) = oldBg st
            \<longrightarrow> backgroundElements (cellBody sv this a st) = backgroundElements st
                \<and> backgroundCellAmount (cellBody sv this a st)
                    = backgroundCellAmount st + ci_width ci)"
proof -
  let ?ext = "backgroundElements (cellBody sv this a st) = backgroundElements st
           \<and> backgroundCellAmount (cellBody sv this a st) = backgroundCellAmount st + ci_width ci"
  have cond: "canMergeBackground st ci \<longleftrightarrow>
          (backgroundElements st \<noteq> [] \<and> backgroundCellAmount st \<noteq> 0
           \<and> (length (ci_decorations ci) = length (oldDecorations st)
              \<and> (\<forall>i<length (ci_decorations ci).
                    deco_ref (ci_decorations ci ! i) = deco_ref (oldDecorations st ! i)))
           \<and> ((ci_isInSelection ci \<and> oldIsInSelection st)
              \<or> (\<not> ci_isInSelection ci \<and> \<not> oldIsInSelection st
                  \<and> cell_bg (ci_cell ci) = oldBg st)))"
    unfolding canMergeBackground_def isSameDecorations_pairwise by (rule refl)
  have ext: "?ext \<longleftrightarrow> canMergeBackground st ci"
  proof (cases "canMergeBackground st ci")
    case True
    with cellBody_background_run[OF visited unit] show ?thesis by simp
  next
    case False
    with cellBody_background_run(1)[OF visited unit]
    have "length (backgroundElements (cellBody sv this a st)) \<noteq> length (backgroundElements st)"
      by simp
    then have "backgroundElements (cellBody sv this a st) \<noteq> backgroundElements st" by auto
    with False show ?thesis by blast
  qed
  have boundary: "length (charElements (cellBody sv this a st)) = length (charElements st) + 1"
    if "cell_fg (ci_cell ci) \<noteq> oldFg st"
      and "\<not> (ci_isInSelection ci \<and> oldIsInSelection st
                    \<and> selectionForeground (colors sv) \<noteq> None)"
  proof -
    from that have "\<not> canMergeCharacters sv st ci" by (auto simp add: canMergeCharacters_def)
    with cellBody_text_run(1)[OF visited unit] show ?thesis by simp
  qed
  from ext cond boundary show ?thesis by blast
qed

text \<open>
  The claim C2 as stated fails: on a selected row with a configured selection foreground,
  the cells \<open>a\<close> and \<open>b\<close> differ in the foreground attribute only, and the render emits
  one text run \<open>ab\<close>, with no boundary at column 1.
\<close>

theorem foreground_change_in_selection_counterexample:
  "cell_fg (loadCell (arg_lineData selectionRowArgs) 1)
     \<noteq> cell_fg (loadCell (arg_lineData selectionRowArgs) 0)
   \<and> cell_bg (loadCell (arg_lineData selectionRowArgs) 1)
     = cell_bg (loadCell (arg_lineData selectionRowArgs) 0)
   \<and> fst (createRow selectionServices selectedFactory selectionRowArgs emptyStore) =
       [BgSpan \<lparr>bg_classList = [XTERM_BG], bg_left = 0, bg_width = Some 18,
                bg_backgroundColor = Some (CssHex 255)\<rparr>,
        CharSpan \<lparr>className = [XTERM_DECORATION_TOP], textContent = ''ab'',
                  style_color = Some (CssHex 16776960), style_textDecorationColor = None,
                  style_textDecoration = None, style_letterSpacing = None\<rparr>]"
  by (simp add: model_defs createRow_loop.simps Let_def demo_defs)

theorem background_run_extended_iff_witness:
  "length (charElements (cellBody demoServices newFactory paletteRowArgs openRunState))
     = length (charElements openRunState) + 1
   \<and> backgroundElements (cellBody demoServices newFactory paletteRowArgs openRunState)
     = backgroundElements openRunState
   \<and> backgroundCellAmount (cellBody demoServices newFactory paletteRowArgs openRunState) = 2"
proof -
  let ?loaded = "openRunState\<lparr>shared := (shared openRunState)
                \<lparr>workCell := loadCell (arg_lineData paletteRowArgs) (cur_x openRunState)\<rparr>\<rparr>"
  let ?ci = "fst (loadUnit demoServices newFactory paletteRowArgs ?loaded)"
  have visited: "getWidth (loadCell (arg_lineData paletteRowArgs) (cur_x openRunState)) \<noteq> 0"
    by (simp add: demo_defs)
  have unit: "loadUnit demoServices newFactory paletteRowArgs ?loaded =
                (?ci, snd (loadUnit demoServices newFactory paletteRowArgs ?loaded))"
    by simp
  note t = background_run_extended_iff[OF visited unit]
  have "length (charElements (cellBody demoServices newFactory paletteRowArgs openRunState))
     = length (charElements openRunState) + 1"
    by (rule t[THEN conjunct2, THEN conjunct1, THEN mp])
       (simp add: loadUnit_def joinedAt_def charsToRender_def isLinkHoverAt_def
          widthCache_get_def isCellInSelection_def WHITESPACE_CELL_CHAR_def NBSP_def
          Let_def demo_defs)
  moreover
  have "backgroundElements (cellBody demoServices newFactory paletteRowArgs openRunState)
          = backgroundElements openRunState
        \<and> backgroundCellAmount (cellBody demoServices newFactory paletteRowArgs openRunState)
          = backgroundCellAmount openRunState + ci_width ?ci"
    by (rule t[THEN conjunct2, THEN conjunct2, THEN mp])
       (simp add: loadUnit_def joinedAt_def charsToRender_def isLinkHoverAt_def
          widthCache_get_def isCellInSelection_def WHITESPACE_CELL_CHAR_def NBSP_def
          createBgSpan_def Let_def demo_defs)
  moreover have "ci_width ?ci = 1"
    by (simp add: loadUnit_def joinedAt_def charsToRender_def widthCache_get_def
        WHITESPACE_CELL_CHAR_def NBSP_def Let_def demo_defs)
  moreover have "backgroundCellAmount openRunState = 1"
    by (simp add: openRunState_def)
  ultimately show ?thesis by simp
qed

subsection \<open>Runs opened for a cursor cell or a joined unit\<close>

text \<open>
  C10: a text run opened for a cursor cell or for a joined unit is never extended. After
  such a unit the counter of mergeable cells is zero; from any state with a zero counter
  the next visited cell opens a new text run whatever its attributes, and a skipped
  zero-width cell changes neither the counter nor the emitted text runs.
\<close>

theorem cursor_or_joined_run_never_extended:
  assumes visited: "getWidth (loadCell (arg_lineData a) (cur_x st)) \<noteq> 0"
    and unit: "loadUnit sv this a
           (st\<lparr>shared := (shared st)\<lparr>workCell := loadCell (arg_lineData a) (cur_x st)\<rparr>\<rparr>) = (ci, st1)"
    and special: "ci_isCursorCell ci \<or> ci_isJoined ci"
  shows "charCellAmount (cellBody sv this a st) = 0
         \<and> (\<forall>st'. charCellAmount st' = 0
               \<and> getWidth (loadCell (arg_lineData a) (cur_x st')) \<noteq> 0
             \<longrightarrow> length (charElements (cellBody sv this a st'))
                   = length (charElements st') + 1)
         \<and> (\<forall>st'. getWidth (loadCell (arg_lineData a) (cur_x st')) = 0
             \<longrightarrow> charCellAmount (cellBody sv this a st') = charCellAmount st'
                 \<and> charElements (cellBody sv this a st') = charElements st')"
proof -
  from special have "\<not> canMergeCharacters sv st ci"
    by (auto simp add: canMergeCharacters_def)
  with cellBody_text_run(3)[OF visited unit] special
  have zero: "charCellAmount (cellBody sv this a st) = 0" by auto
  have opens: "length (charElements (cellBody sv this a st')) = length (charElements st') + 1"
    if z: "charCellAmount st' = 0" and v: "getWidth (loadCell (arg_lineData a) (cur_x st')) \<noteq> 0"
    for st'
  proof -
    obtain ci' st1' where u: "loadUnit sv this a
        (st'\<lparr>shared := (shared st')\<lparr>workCell := loadCell (arg_lineData a) (cur_x st')\<rparr>\<rparr>)
        = (ci', st1')"
      by force
    from z have "\<not> canMergeCharacters sv st' ci'" by (simp add: canMergeCharacters_def)
    with cellBody_text_run(1)[OF v u] show ?thesis by simp
  qed
  have skips: "charCellAmount (cellBody sv this a st') = charCellAmount st'
                 \<and> charElements (cellBody sv this a st') = charElements st'"
    if "getWidth (loadCell (arg_lineData a) (cur_x st')) = 0" for st'
    using cellBody_skipped[OF that] by simp
  from zero opens skips show ?thesis by blast
qed

theorem cursor_or_joined_run_never_extended_witness:
  "charCellAmount (cellBody demoServices newFactory uniformCursorArgs
      (initialRowState demoServices uniformCursorArgs emptyStore)) = 0
   \<and> length (charElements (cellBody demoServices newFactory uniformCursorArgs
        ((cellBody demoServices newFactory uniformCursorArgs
            (initialRowState demoServices uniformCursorArgs emptyStore))\<lparr>cur_x := 1\<rparr>)))
     = length (charElements (cellBody demoServices newFactory uniformCursorArgs
            (initialRowState demoServices uniformCursorArgs emptyStore))) + 1"
proof -
  let ?st = "initialRowState demoServices uniformCursorArgs emptyStore"
  let ?loaded = "?st\<lparr>shared := (shared ?st)
                \<lparr>workCell := loadCell (arg_lineData uniformCursorArgs) (cur_x ?st)\<rparr>\<rparr>"
  let ?ci = "fst (loadUnit demoServices newFactory uniformCursorArgs ?loaded)"
  let ?next = "(cellBody demoServices newFactory uniformCursorArgs ?st)\<lparr>cur_x := 1\<rparr>"
  have w: "getWidth (loadCell (arg_lineData uniformCursorArgs) x) \<noteq> 0" for x
    by (simp add: demo_defs)
  have unit: "loadUnit demoServices newFactory uniformCursorArgs ?loaded =
                (?ci, snd (loadUnit demoServices newFactory uniformCursorArgs ?loaded))"
    by simp
  have special: "ci_isCursorCell ?ci \<or> ci_isJoined ?ci"
    by (simp add: loadUnit_def joinedAt_def widthCache_get_def initialRowState_def Let_def
        demo_defs)
  note t = cursor_or_joined_run_never_extended[OF w unit special]
  from t have zero: "charCellAmount (cellBody demoServices newFactory uniformCursorArgs ?st) = 0"
    by (rule conjunct1)
  from t have "charCellAmount ?next = 0
               \<and> getWidth (loadCell (arg_lineData uniformCursorArgs) (cur_x ?next)) \<noteq> 0
             \<longrightarrow> length (charElements (cellBody demoServices newFactory uniformCursorArgs ?next))
                   = length (charElements ?next) + 1"
    by blast
  with zero w show ?thesis by simp
qed

subsection \<open>The decoration scan\<close>

lemma applyDecorations_snoc:
  "applyDecorations (ds @ [d]) p = decorationOverride d (applyDecorations ds p)"
  by (simp add: applyDecorations_def)

lemma decorationOverride_sticky: "p_isTop p \<Longrightarrow> p_isTop (decorationOverride d p)"
  by (simp add: decorationOverride_def Let_def split: option.splits)

lemma applyDecorations_sticky: "p_isTop p \<Longrightarrow> p_isTop (applyDecorations ds p)"
  unfolding applyDecorations_def
  by (induction ds arbitrary: p) (simp_all add: decorationOverride_sticky)

text \<open>
  C4, as amended: the scan runs over the matching decorations in their order. A
  decoration whose layer is not \<open>top\<close> is skipped entirely, overrides included, once the
  is-top-layer flag is set; every other decoration has its background and foreground RGB
  overrides applied (each forcing true-colour mode) and sets the flag to whether its
  layer is \<open>top\<close>. Hence the flag, once true, is never reset by a later decoration. The
  selection overrides are applied only when the flag is not already true and the cell is
  selected, and applying them sets the flag.
\<close>

theorem decoration_scan_top_layer:
  "applyDecorations (ds @ [d]) p = decorationOverride d (applyDecorations ds p)
   \<and> (layer d \<noteq> Some ''top'' \<and> p_isTop p \<longrightarrow> decorationOverride d p = p)
   \<and> (\<not> (layer d \<noteq> Some ''top'' \<and> p_isTop p) \<longrightarrow>
        p_isTop (decorationOverride d p) = (layer d = Some ''top'')
        \<and> (case backgroundColorRGB d of
              Some col \<Rightarrow> p_bgColorMode (decorationOverride d p) = CM_RGB
                          \<and> p_bg (decorationOverride d p) = rgb24 (rgba col)
                          \<and> p_bgOverride (decorationOverride d p) = Some col
            | None \<Rightarrow> p_bgColorMode (decorationOverride d p) = p_bgColorMode p
                      \<and> p_bg (decorationOverride d p) = p_bg p
                      \<and> p_bgOverride (decorationOverride d p) = p_bgOverride p)
        \<and> (case foregroundColorRGB d of
              Some col \<Rightarrow> p_fgColorMode (decorationOverride d p) = CM_RGB
                          \<and> p_fg (decorationOverride d p) = rgb24 (rgba col)
                          \<and> p_fgOverride (decorationOverride d p) = Some col
            | None \<Rightarrow> p_fgColorMode (decorationOverride d p) = p_fgColorMode p
                      \<and> p_fg (decorationOverride d p) = p_fg p
                      \<and> p_fgOverride (decorationOverride d p) = p_fgOverride p))
   \<and> (p_isTop p \<longrightarrow> p_isTop (applyDecorations ds p))
   \<and> (p_isTop p \<or> \<not> isInSelection \<longrightarrow> applySelection sv isInSelection p = p)
   \<and> (\<not> p_isTop p \<and> isInSelection \<longrightarrow>
        p_isTop (applySelection sv isInSelection p)
        \<and> p_bgColorMode (applySelection sv isInSelection p) = CM_RGB
        \<and> p_bgOverride (applySelection sv isInSelection p) =
            Some (if isFocused sv then selectionBackgroundOpaque (colors sv)
                  else selectionInactiveBackgroundOpaque (colors sv))
        \<and> (case selectionForeground (colors sv) of
              Some col \<Rightarrow> p_fgColorMode (applySelection sv isInSelection p) = CM_RGB
                          \<and> p_fgOverride (applySelection sv isInSelection p) = Some col
            | None \<Rightarrow> p_fgColorMode (applySelection sv isInSelection p) = p_fgColorMode p
                      \<and> p_fgOverride (applySelection sv isInSelection p) = p_fgOverride p))"
proof -
  have a: "applyDecorations (ds @ [d]) p = decorationOverride d (applyDecorations ds p)"
    by (rule applyDecorations_snoc)
  have b: "layer d \<noteq> Some ''top'' \<and> p_isTop p \<longrightarrow> decorationOverride d p = p"
    by (simp add: decorationOverride_def)
  have c: "\<not> (layer d \<noteq> Some ''top'' \<and> p_isTop p) \<longrightarrow>
        p_isTop (decorationOverride d p) = (layer d = Some ''top'')
        \<and> (case backgroundColorRGB d of
              Some col \<Rightarrow> p_bgColorMode (decorationOverride d p) = CM_RGB
                          \<and> p_bg (decorationOverride d p) = rgb24 (rgba col)
                          \<and> p_bgOverride (decorationOverride d p) = Some col
            | None \<Rightarrow> p_bgColorMode (decorationOverride d p) = p_bgColorMode p
                      \<and> p_bg (decorationOverride d p) = p_bg p
                      \<and> p_bgOverride (decorationOverride d p) = p_bgOverride p)
        \<and> (case foregroundColorRGB d of
              Some col \<Rightarrow> p_fgColorMode (decorationOverride d p) = CM_RGB
                          \<and> p_fg (decorationOverride d p) = rgb24 (rgba col)
                          \<and> p_fgOverride (decorationOverride d p) = Some col
            | None \<Rightarrow> p_fgColorMode (decorationOverride d p) = p_fgColorMode p
                      \<and> p_fg (decorationOverride d p) = p_fg p
                      \<and> p_fgOverride (decorationOverride d p) = p_fgOverride p)"
    by (auto simp add: decorationOverride_def Let_def split: option.splits)
  have e: "p_isTop p \<longrightarrow> p_isTop (applyDecorations ds p)"
    by (simp add: applyDecorations_sticky)
  have f: "p_isTop p \<or> \<not> isInSelection \<longrightarrow> applySelection sv isInSelection p = p"
    by (auto simp add: applySelection_def)
  have g: "\<not> p_isTop p \<and> isInSelection \<longrightarrow>
        p_isTop (applySelection sv isInSelection p)
        \<and> p_bgColorMode (applySelection sv isInSelection p) = CM_RGB
        \<and> p_bgOverride (applySelection sv isInSelection p) =
            Some (if isFocused sv then selectionBackgroundOpaque (colors sv)
                  else selectionInactiveBackgroundOpaque (colors sv))
        \<and> (case selectionForeground (colors sv) of
              Some col \<Rightarrow> p_fgColorMode (applySelection sv isInSelection p) = CM_RGB
                          \<and> p_fgOverride (applySelection sv isInSelection p) = Some col
            | None \<Rightarrow> p_fgColorMode (applySelection sv isInSelection p) = p_fgColorMode p
                      \<and> p_fgOverride (applySelection sv isInSelection p) = p_fgOverride p)"
    by (auto simp add: applySelection_def Let_def split: option.splits)
  from a b c e f g show ?thesis by blast
qed

text \<open>
  The claim C4 as stated fails: with a \<open>top\<close> decoration followed by a \<open>bottom\<close>
  decoration at one cell, the background override of the later decoration is not applied;
  the cell is painted with the colour of the first.
\<close>

theorem later_decoration_skipped_counterexample:
  "p_bgOverride (applyDecorations [topDecoration, bottomDecoration] (initialPaint (plainCell ''a'')))
     = backgroundColorRGB topDecoration
   \<and> backgroundColorRGB bottomDecoration \<noteq> None
   \<and> backgroundColorRGB bottomDecoration \<noteq> backgroundColorRGB topDecoration
   \<and> fst (createRow decoratedServices newFactory singleCellArgs emptyStore) =
       [BgSpan \<lparr>bg_classList = [XTERM_BG], bg_left = 0, bg_width = Some 9,
                bg_backgroundColor = Some (CssHex 16711680)\<rparr>,
        CharSpan \<lparr>className = [XTERM_DECORATION_TOP], textContent = ''a'',
                  style_color = None, style_textDecorationColor = None,
                  style_textDecoration = None, style_letterSpacing = None\<rparr>]"
  by (simp add: model_defs createRow_loop.simps Let_def demo_defs)

theorem decoration_scan_top_layer_witness:
  "decorationOverride bottomDecoration
      (applyDecorations [topDecoration] (initialPaint (plainCell ''a'')))
     = applyDecorations [topDecoration] (initialPaint (plainCell ''a''))
   \<and> p_isTop (applyDecorations [topDecoration, bottomDecoration]
        (decorationOverride topDecoration (initialPaint (plainCell ''a''))))"
proof -
  let ?p = "applyDecorations [topDecoration] (initialPaint (plainCell ''a''))"
  have top: "layer bottomDecoration \<noteq> Some ''top'' \<and> p_isTop ?p"
    by (simp add: applyDecorations_def decorationOverride_def initialPaint_def Let_def
        demo_defs)
  from decoration_scan_top_layer[where d = bottomDecoration and p = "?p"] top
  have "decorationOverride bottomDecoration ?p = ?p" by blast
  moreover
  have top2: "p_isTop (decorationOverride topDecoration (initialPaint (plainCell ''a'')))"
    by (simp add: decorationOverride_def initialPaint_def Let_def demo_defs)
  from decoration_scan_top_layer[where ds = "[topDecoration, bottomDecoration]"
      and p = "decorationOverride topDecoration (initialPaint (plainCell ''a''))"] top2
  have "p_isTop (applyDecorations [topDecoration, bottomDecoration]
        (decorationOverride topDecoration (initialPaint (plainCell ''a''))))" by blast
  ultimately show ?thesis by simp
qed

subsection \<open>The cursor inside a joined range\<close>

text \<open>
  C7: the code relocates \<^verbatim>\<open>cursorX\<close> to the start of the joined range, but only after
  \<^verbatim>\<open>isCursorCell\<close> has been computed from the old value, and the loop then jumps past
  the range. With the cursor on column 1 of the joined range \<open>[0, 2)\<close> the variable ends
  at 0, yet the text run \<open>fi\<close> carries no cursor class; with the cursor on column 0 it
  carries them.
\<close>

theorem joined_cursor_not_rendered:
  "cur_cursorX (createRow_state joinedServices newFactory (ligatureArgs 1) emptyStore) = 0
   \<and> fst (createRow joinedServices newFactory (ligatureArgs 1) emptyStore) =
       [BgSpan \<lparr>bg_classList = [XTERM_BG], bg_left = 0, bg_width = Some 18,
                bg_backgroundColor = None\<rparr>,
        CharSpan \<lparr>className = [], textContent = ''fi'', style_color = None,
                  style_textDecorationColor = None, style_textDecoration = None,
                  style_letterSpacing = None\<rparr>]
   \<and> fst (createRow joinedServices newFactory (ligatureArgs 0) emptyStore) =
       [BgSpan \<lparr>bg_classList = [XTERM_BG], bg_left = 0, bg_width = Some 18,
                bg_backgroundColor = None\<rparr>,
        CharSpan \<lparr>className = [CURSOR_CLASS, CURSOR_STYLE_BLOCK_CLASS], textContent = ''fi'',
                  style_color = None, style_textDecorationColor = None,
                  style_textDecoration = None, style_letterSpacing = None\<rparr>]"
  by (simp add: model_defs createRow_loop.simps Let_def demo_defs)

subsection \<open>Minimum contrast and its cache\<close>

text \<open>
  C5, as amended: when minimum contrast is enforced, the cache selected by the dim flag
  of the cell is read for the (background, foreground) pair exactly when neither a
  background nor a foreground override is passed in; on a hit the cached value decides,
  the cache is left as it is. Otherwise the adjustment is computed against the
  override-aware pair and stored, the marker for no adjustment included, under the
  override-aware pair. The background override passed by \<^verbatim>\<open>createRow\<close> is set by a
  decoration, by the selection, and for every dim cell (the half-opacity background).
\<close>

theorem contrast_cache_lookup:
  assumes enabled: "minimumContrastRatio sv \<noteq> 1"
    and demanded: "\<not> excludeFromContrastRatioDemands (getCode c)"
  shows "contrastLookup s bg fg c bgOverride fgOverride =
           (if bgOverride = None \<and> fgOverride = None
            then (if isDim c then halfContrastCache s else contrastCache s) (rgba bg, rgba fg)
            else None)
         \<and> (\<forall>cached. contrastLookup s bg fg c bgOverride fgOverride = Some cached \<longrightarrow>
               applyMinimumContrast sv s element bg fg c bgOverride fgOverride =
                 (cached \<noteq> None,
                  (case cached of
                     Some col \<Rightarrow> element\<lparr>style_color := Some (CssText (css col))\<rparr>
                   | None \<Rightarrow> element),
                  s))
         \<and> (contrastLookup s bg fg c bgOverride fgOverride = None \<longrightarrow>
               (let computed = ensureContrastRatio sv (orElse bgOverride bg) (orElse fgOverride fg)
                                 (minimumContrastRatio sv / (if isDim c then 2 else 1));
                    key = (rgba (orElse bgOverride bg), rgba (orElse fgOverride fg))
                in applyMinimumContrast sv s element bg fg c bgOverride fgOverride =
                     (computed \<noteq> None,
                      (case computed of
                         Some col \<Rightarrow> element\<lparr>style_color := Some (CssText (css col))\<rparr>
                       | None \<Rightarrow> element),
                      setContrastCache s c key computed)
                   \<and> getContrastCache (setContrastCache s c key computed) c key = Some computed))
         \<and> (dimBgOverride sv c resolvedBg p = None \<longleftrightarrow> p_bgOverride p = None \<and> \<not> isDim c)"
proof -
  have a: "contrastLookup s bg fg c bgOverride fgOverride =
           (if bgOverride = None \<and> fgOverride = None
            then (if isDim c then halfContrastCache s else contrastCache s) (rgba bg, rgba fg)
            else None)"
    by (simp add: contrastLookup_def getContrastCache_def)
  have b: "applyMinimumContrast sv s element bg fg c bgOverride fgOverride =
                 (cached \<noteq> None,
                  (case cached of
                     Some col \<Rightarrow> element\<lparr>style_color := Some (CssText (css col))\<rparr>
                   | None \<Rightarrow> element),
                  s)"
    if "contrastLookup s bg fg c bgOverride fgOverride = Some cached" for cached
    using that enabled demanded
    by (simp add: applyMinimumContrast_def split: option.splits)
  have c: "(let computed = ensureContrastRatio sv (orElse bgOverride bg) (orElse fgOverride fg)
                                 (minimumContrastRatio sv / (if isDim c then 2 else 1));
                    key = (rgba (orElse bgOverride bg), rgba (orElse fgOverride fg))
                in applyMinimumContrast sv s element bg fg c bgOverride fgOverride =
                     (computed \<noteq> None,
                      (case computed of
                         Some col \<Rightarrow> element\<lparr>style_color := Some (CssText (css col))\<rparr>
                       | None \<Rightarrow> element),
                      setContrastCache s c key computed)
                   \<and> getContrastCache (setContrastCache s c key computed) c key = Some computed)"
    if "contrastLookup s bg fg c bgOverride fgOverride = None"
    using that enabled demanded
    by (simp add: applyMinimumContrast_def Let_def getContrastCache_def setContrastCache_def
        split: option.splits)
  have d: "dimBgOverride sv c resolvedBg p = None \<longleftrightarrow> p_bgOverride p = None \<and> \<not> isDim c"
    by (simp add: dimBgOverride_def split: option.splits)
  from a b c d show ?thesis by blast
qed

text \<open>
  The claim C5 as stated fails: a dim cell with no decoration and no selection has no
  decoration colour override in effect, the half-contrast cache holds an entry for its
  pair, and still the colour is computed anew.
\<close>

theorem dim_cell_skips_cache_counterexample:
  "forEachDecorationAtCell contrastServices 0 0 = []
   \<and> \<not> isCellInSelection newFactory 0 0
   \<and> getContrastCache cachedStore (loadCell (arg_lineData dimCellArgs) 0)
        (rgba (background (colors contrastServices)), rgba (foreground (colors contrastServices)))
       = Some (Some (mkColor ''cached'' 2))
   \<and> fst (createRow contrastServices newFactory dimCellArgs cachedStore) =
       [BgSpan \<lparr>bg_classList = [XTERM_BG], bg_left = 0, bg_width = Some 9,
                bg_backgroundColor = None\<rparr>,
        CharSpan \<lparr>className = [DIM_CLASS], textContent = ''d'',
                  style_color = Some (CssText ''computed''), style_textDecorationColor = None,
                  style_textDecoration = None, style_letterSpacing = None\<rparr>]"
  by (simp add: model_defs createRow_loop.simps Let_def demo_defs)

theorem contrast_cache_lookup_witness:
  "applyMinimumContrast contrastServices cachedStore createCharSpan
      (background demoColors) (foreground demoColors) (plainCell ''a'') None None
     = (True, createCharSpan\<lparr>style_color := Some (CssText ''cached'')\<rparr>, cachedStore)"
proof -
  have enabled: "minimumContrastRatio contrastServices \<noteq> 1"
    by (simp add: demo_defs)
  have demanded: "\<not> excludeFromContrastRatioDemands (getCode (plainCell ''a''))"
    by (simp add: excludeFromContrastRatioDemands_def isPowerlineGlyph_def isBoxOrBlockGlyph_def
        demo_defs)
  have hit: "contrastLookup cachedStore (background demoColors) (foreground demoColors)
      (plainCell ''a'') None None = Some (Some (mkColor ''cached'' 2))"
    by (simp add: contrastLookup_def getContrastCache_def demo_defs)
  from contrast_cache_lookup[OF enabled demanded, where s = cachedStore
      and bg = "background demoColors" and fg = "foreground demoColors"
      and bgOverride = None and fgOverride = None and element = createCharSpan] hit
  have "applyMinimumContrast contrastServices cachedStore createCharSpan
      (background demoColors) (foreground demoColors) (plainCell ''a'') None None
     = (Some (mkColor ''cached'' 2) \<noteq> None,
        (case Some (mkColor ''cached'' 2) of
           Some col \<Rightarrow> createCharSpan\<lparr>style_color := Some (CssText (css col))\<rparr>
         | None \<Rightarrow> createCharSpan),
        cachedStore)"
    by blast
  then show ?thesis by (simp add: mkColor_def)
qed

subsection \<open>Background spans cover the row\<close>

lemma createRow_loop_invariant:
  assumes "I st"
    and "\<And>st. I st \<Longrightarrow> cur_x st < n \<Longrightarrow>
            I ((cellBody sv this a st)\<lparr>cur_x := cur_x (cellBody sv this a st) + 1\<rparr>)"
  shows "I (createRow_loop sv this a n st)"
  using assms
proof (induction sv this a n st rule: createRow_loop.induct)
  case (1 sv this a lineLength st)
  show ?case
  proof (cases "cur_x st < lineLength")
    case True
    have "I (createRow_loop sv this a lineLength
              ((cellBody sv this a st)\<lparr>cur_x := cur_x (cellBody sv this a st) + 1\<rparr>))"
      by (rule "1.IH"[OF True]) (use "1.prems" True in auto)
    with True show ?thesis by (subst createRow_loop.simps) simp
  next
    case False
    with "1.prems"(1) show ?thesis by (subst createRow_loop.simps) simp
  qed
qed

lemma bg_width_newBackgroundElement [simp]:
  "bg_width (newBackgroundElement sv a xc isInv p) = None"
  by (simp add: newBackgroundElement_def createBgSpan_def Let_def split: color_mode.splits)

lemma sum_setLast_width:
  assumes "xs \<noteq> []" and "bg_width (last xs) = None"
  shows "sum_list (map bgWidth (setLast (\<lambda>e. e\<lparr>bg_width := Some v\<rparr>) xs))
           = sum_list (map bgWidth xs) + v"
proof -
  from assms(1) have xs: "xs = butlast xs @ [last xs]" by simp
  have "sum_list (map bgWidth xs) = sum_list (map bgWidth (butlast xs)) + bgWidth (last xs)"
    by (subst xs) simp
  with assms show ?thesis by (simp add: setLast_def bgWidth_def)
qed

lemma sum_closeBackground:
  assumes "bgOpenInv st"
  shows "sum_list (map bgWidth (closeBackground a st)) = bgAccount a st"
proof (cases "backgroundCellAmount st = 0")
  case True
  then show ?thesis by (simp add: closeBackground_def bgAccount_def)
next
  case False
  with assms have "backgroundElements st \<noteq> []"
    "bg_width (last (backgroundElements st)) = None"
    by (auto simp add: bgOpenInv_def)
  from sum_setLast_width[OF this] False show ?thesis
    by (simp add: closeBackground_def bgAccount_def)
qed

lemma bgAccount_visited:
  assumes visited: "getWidth (loadCell (arg_lineData a) (cur_x st)) \<noteq> 0"
    and unit: "loadUnit sv this a
           (st\<lparr>shared := (shared st)\<lparr>workCell := loadCell (arg_lineData a) (cur_x st)\<rparr>\<rparr>) = (ci, st1)"
    and inv: "bgOpenInv st"
  shows "bgAccount a (cellBody sv this a st)
           = bgAccount a st + real_of_int (ci_width ci) * arg_cellWidth a"
    and "bgOpenInv (cellBody sv this a st)"
proof -
  note r = cellBody_background_run[OF visited unit]
  show "bgAccount a (cellBody sv this a st)
           = bgAccount a st + real_of_int (ci_width ci) * arg_cellWidth a"
  proof (cases "canMergeBackground st ci")
    case True
    with r show ?thesis by (simp add: bgAccount_def algebra_simps)
  next
    case False
    with r sum_closeBackground[OF inv, of a] show ?thesis
      by (simp add: bgAccount_def bgWidth_def)
  qed
  show "bgOpenInv (cellBody sv this a st)"
  proof (cases "canMergeBackground st ci")
    case True
    with r inv show ?thesis by (auto simp add: bgOpenInv_def canMergeBackground_def)
  next
    case False
    with r show ?thesis by (simp add: bgOpenInv_def)
  qed
qed

lemma bgAccount_skipped:
  assumes "getWidth (loadCell (arg_lineData a) (cur_x st)) = 0"
  shows "bgAccount a (cellBody sv this a st) = bgAccount a st"
    and "bgOpenInv (cellBody sv this a st) = bgOpenInv st"
  using cellBody_skipped[OF assms] by (simp_all add: bgAccount_def bgOpenInv_def)

lemma bgAccount_flushRow:
  assumes "bgOpenInv st"
  shows "sum_list (map bgWidth (backgroundElements (flushRow a st))) = bgAccount a st"
proof (cases "backgroundCellAmount st = 0")
  case True
  then show ?thesis by (simp add: flushRow_def bgAccount_def)
next
  case False
  with assms have "backgroundElements st \<noteq> []"
    "bg_width (last (backgroundElements st)) = None"
    by (auto simp add: bgOpenInv_def)
  from sum_setLast_width[OF this] False \<open>backgroundElements st \<noteq> []\<close> show ?thesis
    by (simp add: flushRow_def bgAccount_def)
qed

lemma bgSpanTotal_createRow:
  "bgSpanTotal (fst (createRow sv this a s))
     = sum_list (map bgWidth (backgroundElements (createRow_state sv this a s)))"
  by (simp add: createRow_def Let_def bgSpanTotal_def comp_def)

lemma loadUnit_width:
  "loadUnit sv this a st = (ci, st1) \<Longrightarrow>
     ci_width ci = (case joinedAt st of
                      None \<Rightarrow> getWidth (workCell (shared st))
                    | Some r \<Rightarrow> snd r - fst r)
     \<and> ci_lastCharX ci = (case joinedAt st of None \<Rightarrow> cur_x st | Some r \<Rightarrow> snd r - 1)"
  by (auto simp add: loadUnit_def Let_def JoinedCellData_def split: prod.splits option.splits)

lemma coverInv_step:
  fixes n :: int and a :: rowArgs
  defines "w \<equiv> (\<lambda>x. getWidth (loadCell (arg_lineData a) x))"
  assumes widths: "\<forall>x. 0 \<le> x \<and> x < n \<longrightarrow>
               (w x = 0 \<or> w x = 1 \<or> w x = 2)
               \<and> (w x = 2 \<longrightarrow> x + 1 < n \<and> w (x + 1) = 0)
               \<and> (w x = 0 \<longrightarrow> 0 < x \<and> w (x - 1) = 2)"
    and inv: "coverInv sv this a n st"
    and lt: "cur_x st < n"
  shows "coverInv sv this a n
           ((cellBody sv this a st)\<lparr>cur_x := cur_x (cellBody sv this a st) + 1\<rparr>)"
proof -
  let ?x = "cur_x st"
  let ?body = "cellBody sv this a st"
  let ?next = "?body\<lparr>cur_x := cur_x ?body + 1\<rparr>"
  from inv have x0: "0 \<le> ?x" and ranges: "rangesOk n w ?x (joinedRanges st)"
    and open_inv: "bgOpenInv st"
    and acc: "bgAccount a st = real_of_int (?x + (if ?x < n \<and> w ?x = 0 then 1 else 0))
               * arg_cellWidth a"
    by (simp_all add: coverInv_def w_def Let_def)
  from widths x0 lt have wx: "w ?x = 0 \<or> w ?x = 1 \<or> w ?x = 2"
    and wide: "w ?x = 2 \<Longrightarrow> ?x + 1 < n \<and> w (?x + 1) = 0"
    and cont: "w ?x = 0 \<Longrightarrow> 0 < ?x \<and> w (?x - 1) = 2"
    by blast+
  have no_cont_after: "w (?x + 1) \<noteq> 0" if "w ?x \<noteq> 2" "?x + 1 < n"
  proof
    assume z: "w (?x + 1) = 0"
    from widths have "0 \<le> ?x + 1 \<and> ?x + 1 < n \<longrightarrow>
        (w (?x + 1) = 0 \<longrightarrow> 0 < ?x + 1 \<and> w (?x + 1 - 1) = 2)"
      by blast
    with x0 that(2) z have "w ?x = 2" by simp
    with that(1) show False by simp
  qed
  have goal: "coverInv sv this a n ?next"
    if nx: "cur_x ?body + 1 \<le> n" "0 \<le> cur_x ?body + 1"
      and nr: "rangesOk n w (cur_x ?body + 1) (joinedRanges ?body)"
      and no: "bgOpenInv ?body"
      and na: "bgAccount a ?body = real_of_int (cur_x ?body + 1
                 + (if cur_x ?body + 1 < n \<and> w (cur_x ?body + 1) = 0 then 1 else 0))
                 * arg_cellWidth a"
  proof -
    have "bgAccount a ?next = bgAccount a ?body" "bgOpenInv ?next = bgOpenInv ?body"
      by (simp_all add: bgAccount_def bgOpenInv_def)
    with that show ?thesis by (simp add: coverInv_def w_def Let_def)
  qed
  show ?thesis
  proof (cases "w ?x = 0")
    case True
    then have v: "getWidth (loadCell (arg_lineData a) ?x) = 0" by (simp add: w_def)
    have body: "?body = st\<lparr>shared := (shared st)\<lparr>workCell := loadCell (arg_lineData a) ?x\<rparr>\<rparr>"
      by (rule cellBody_skipped[OF v])
    have fields: "cur_x ?body = ?x" "joinedRanges ?body = joinedRanges st"
      by (simp_all add: body)
    have r: "rangesOk n w (?x + 1) (joinedRanges st)"
    proof (cases "joinedRanges st")
      case Nil
      then show ?thesis by simp
    next
      case (Cons r rs)
      with ranges have "?x \<le> fst r" "w (fst r) \<noteq> 0" by simp_all
      with True have "?x + 1 \<le> fst r" by (cases "fst r = ?x") auto
      with ranges Cons show ?thesis by simp
    qed
    from True no_cont_after have nc: "?x + 1 < n \<Longrightarrow> w (?x + 1) \<noteq> 0" by simp
    show ?thesis
    proof (rule goal)
      show "cur_x ?body + 1 \<le> n" "0 \<le> cur_x ?body + 1" using lt x0 by (simp_all add: fields)
      show "rangesOk n w (cur_x ?body + 1) (joinedRanges ?body)" using r by (simp add: fields)
      show "bgOpenInv ?body" using bgAccount_skipped(2)[OF v] open_inv by simp
      show "bgAccount a ?body = real_of_int (cur_x ?body + 1
                 + (if cur_x ?body + 1 < n \<and> w (cur_x ?body + 1) = 0 then 1 else 0))
                 * arg_cellWidth a"
        using bgAccount_skipped(1)[OF v] acc True lt nc by (auto simp add: fields)
    qed
  next
    case False
    then have v: "getWidth (loadCell (arg_lineData a) ?x) \<noteq> 0" by (simp add: w_def)
    let ?loaded = "st\<lparr>shared := (shared st)\<lparr>workCell := loadCell (arg_lineData a) ?x\<rparr>\<rparr>"
    obtain ci st1 where unit: "loadUnit sv this a ?loaded = (ci, st1)" by force
    have body: "?body = renderUnit sv this a ci st1" by (rule cellBody_visited[OF v unit])
    note j = loadUnit_joined[OF unit] and wd = loadUnit_width[OF unit]
    have acc': "bgAccount a ?body = real_of_int (?x + ci_width ci) * arg_cellWidth a"
      using bgAccount_visited(1)[OF v unit open_inv] acc False
      by (simp add: algebra_simps)
    have open': "bgOpenInv ?body" by (rule bgAccount_visited(2)[OF v unit open_inv])
    have jr: "joinedRanges ?body = joinedRanges st1"
      by (simp add: body joinedRanges_renderUnit)
    show ?thesis
    proof (cases "joinedAt st")
      case None
      with j have nj: "\<not> ci_isJoined ci" "ci_lastCharX ci = ?x" "joinedRanges st1 = joinedRanges st"
        "cur_x st1 = ?x" by simp_all
      from None wd have cw: "ci_width ci = w ?x" by (simp add: w_def)
      have cx: "cur_x ?body = ?x" by (simp add: body cur_x_renderUnit nj)
      have r: "rangesOk n w (?x + 1) (joinedRanges st)"
      proof (cases "joinedRanges st")
        case Nil
        then show ?thesis by simp
      next
        case (Cons r rs)
        with None have "fst r \<noteq> ?x" by (auto simp add: joinedAt_def split: if_splits)
        with ranges Cons show ?thesis by simp
      qed
      show ?thesis
      proof (rule goal)
        show "cur_x ?body + 1 \<le> n" "0 \<le> cur_x ?body + 1" using lt x0 by (simp_all add: cx)
        show "rangesOk n w (cur_x ?body + 1) (joinedRanges ?body)"
          using r by (simp add: cx jr nj)
        show "bgOpenInv ?body" by (rule open')
        show "bgAccount a ?body = real_of_int (cur_x ?body + 1
                 + (if cur_x ?body + 1 < n \<and> w (cur_x ?body + 1) = 0 then 1 else 0))
                 * arg_cellWidth a"
        proof (cases "w ?x = 2")
          case True
          with wide acc' cw show ?thesis by (simp add: cx)
        next
          case notwide: False
          with wx False have one: "w ?x = 1" by simp
          from no_cont_after[OF notwide] have "\<not> (?x + 1 < n \<and> w (?x + 1) = 0)" by blast
          with acc' cw one show ?thesis by (auto simp add: cx)
        qed
      qed
    next
      case (Some r)
      with j have isj: "ci_isJoined ci" and jrs: "joinedRanges st = r # joinedRanges st1"
        by simp_all
      from Some wd have cw: "ci_width ci = snd r - fst r" and lc: "ci_lastCharX ci = snd r - 1"
        by simp_all
      from Some have fr: "fst r = ?x"
        by (auto simp add: joinedAt_def split: list.splits if_splits)
      from isj have "\<not> canMergeCharacters sv st1 ci" by (simp add: canMergeCharacters_def)
      then have cx: "cur_x ?body = snd r - 1" by (simp add: body cur_x_renderUnit lc)
      from ranges jrs have rk: "fst r < snd r" "snd r \<le> n" "snd r < n \<longrightarrow> w (snd r) \<noteq> 0"
        "rangesOk n w (snd r) (joinedRanges st1)" by simp_all
      show ?thesis
      proof (rule goal)
        show "cur_x ?body + 1 \<le> n" "0 \<le> cur_x ?body + 1" using rk fr x0 by (simp_all add: cx)
        show "rangesOk n w (cur_x ?body + 1) (joinedRanges ?body)"
          using rk by (simp add: cx jr)
        show "bgOpenInv ?body" by (rule open')
        show "bgAccount a ?body = real_of_int (cur_x ?body + 1
                 + (if cur_x ?body + 1 < n \<and> w (cur_x ?body + 1) = 0 then 1 else 0))
                 * arg_cellWidth a"
          using acc' cw fr rk by (auto simp add: cx)
      qed
    qed
  qed
qed

lemma createRow_loop_exit: "\<not> cur_x (createRow_loop sv this a n st) < n"
proof (induction sv this a n st rule: createRow_loop.induct)
  case (1 sv this a lineLength st)
  show ?case
  proof (cases "cur_x st < lineLength")
    case True
    with "1.IH"[OF True] show ?thesis by (subst createRow_loop.simps) simp
  next
    case False
    then show ?thesis by (subst createRow_loop.simps) simp
  qed
qed

text \<open>
  C6, as amended: a zero-width continuation cell never produces a run of its own (the
  iteration on it leaves the emitted background and text runs as they are), and on a
  well-formed row the widths of the emitted background runs sum to the effective row
  length (times the pixel width of a cell).
\<close>

theorem background_spans_cover_row:
  assumes wf: "wellFormedRow sv this a"
  shows "(\<forall>st. getWidth (loadCell (arg_lineData a) (cur_x st)) = 0 \<longrightarrow>
            backgroundElements (cellBody sv this a st) = backgroundElements st
            \<and> charElements (cellBody sv this a st) = charElements st)
         \<and> bgSpanTotal (fst (createRow sv this a s)) =
             real_of_int (lineLength_of this (arg_lineData a) (arg_row a) (arg_isCursorRow a)
                            (arg_cursorX a))
               * arg_cellWidth a"
proof -
  let ?n = "lineLength_of this (arg_lineData a) (arg_row a) (arg_isCursorRow a) (arg_cursorX a)"
  let ?w = "\<lambda>x. getWidth (loadCell (arg_lineData a) x)"
  let ?init = "initialRowState sv a s"
  let ?final = "createRow_loop sv this a ?n ?init"
  from wf have n0: "0 \<le> ?n"
    and widths: "\<forall>x. 0 \<le> x \<and> x < ?n \<longrightarrow>
               (?w x = 0 \<or> ?w x = 1 \<or> ?w x = 2)
               \<and> (?w x = 2 \<longrightarrow> x + 1 < ?n \<and> ?w (x + 1) = 0)
               \<and> (?w x = 0 \<longrightarrow> 0 < x \<and> ?w (x - 1) = 2)"
    and ranges: "rangesOk ?n ?w 0 (getJoinedCharacters sv (arg_row a))"
    by (simp_all add: wellFormedRow_def Let_def)
  have skipped: "backgroundElements (cellBody sv this a st) = backgroundElements st
            \<and> charElements (cellBody sv this a st) = charElements st"
    if "getWidth (loadCell (arg_lineData a) (cur_x st)) = 0" for st
    using cellBody_skipped[OF that] by simp
  from widths have first: "0 < ?n \<longrightarrow> ?w 0 \<noteq> 0" by force
  have init: "coverInv sv this a ?n ?init"
    using n0 ranges first
    by (auto simp add: coverInv_def initialRowState_def bgOpenInv_def bgAccount_def Let_def)
  have inv: "coverInv sv this a ?n ?final"
    using init
  proof (rule createRow_loop_invariant)
    fix st
    assume "coverInv sv this a ?n st" "cur_x st < ?n"
    with widths
    show "coverInv sv this a ?n ((cellBody sv this a st)\<lparr>cur_x := cur_x (cellBody sv this a st) + 1\<rparr>)"
      by (rule coverInv_step)
  qed
  from inv createRow_loop_exit[of sv this a ?n ?init] have at_end: "cur_x ?final = ?n"
    by (simp add: coverInv_def Let_def)
  from inv at_end have acc: "bgAccount a ?final = real_of_int ?n * arg_cellWidth a"
    and open_inv: "bgOpenInv ?final"
    by (simp_all add: coverInv_def Let_def)
  have "bgSpanTotal (fst (createRow sv this a s)) = bgAccount a ?final"
    using bgAccount_flushRow[OF open_inv, of a]
    by (simp add: bgSpanTotal_createRow createRow_state_def)
  with acc skipped show ?thesis by simp
qed

text \<open>
  The claim C6 as stated, for every row render, fails: when the effective length ends
  between a wide cell and its continuation cell, the background run of the wide cell is
  two cells wide while the effective length is 1.
\<close>

theorem wide_cell_at_row_end_counterexample:
  "lineLength_of newFactory (arg_lineData wideEndArgs) (arg_row wideEndArgs)
      (arg_isCursorRow wideEndArgs) (arg_cursorX wideEndArgs) = 1
   \<and> arg_cellWidth wideEndArgs = 9
   \<and> fst (createRow demoServices newFactory wideEndArgs emptyStore) =
       [BgSpan \<lparr>bg_classList = [XTERM_BG, XTERM_BG_N 1], bg_left = 0, bg_width = Some 18,
                bg_backgroundColor = None\<rparr>,
        CharSpan \<lparr>className = [], textContent = ''W'', style_color = None,
                  style_textDecorationColor = None, style_textDecoration = None,
                  style_letterSpacing = Some 9\<rparr>]
   \<and> bgSpanTotal (fst (createRow demoServices newFactory wideEndArgs emptyStore)) = 18"
  by (simp add: model_defs createRow_loop.simps Let_def demo_defs bgSpanTotal_def
      bgWidth_def)

theorem background_spans_cover_row_witness:
  "bgSpanTotal (fst (createRow wideJoinedServices newFactory wideJoinedArgs emptyStore)) = 36"
proof -
  have len: "lineLength_of newFactory (arg_lineData wideJoinedArgs) (arg_row wideJoinedArgs)
      (arg_isCursorRow wideJoinedArgs) (arg_cursorX wideJoinedArgs) = 4"
    by (simp add: lineLength_of_def isRowInSelection_def demo_defs)
  have wf: "wellFormedRow wideJoinedServices newFactory wideJoinedArgs"
    unfolding wellFormedRow_def len Let_def
    by (auto simp add: demo_defs)
  from background_spans_cover_row[OF wf, of emptyStore] len
  have "bgSpanTotal (fst (createRow wideJoinedServices newFactory wideJoinedArgs emptyStore))
          = real_of_int 4 * arg_cellWidth wideJoinedArgs"
    by simp
  then show ?thesis by (simp add: demo_defs)
qed

subsection \<open>Rendering twice\<close>

lemma storeConsistent_workCell [simp]:
  "storeConsistent sv (s\<lparr>workCell := c\<rparr>) = storeConsistent sv s"
  by (simp add: storeConsistent_def)

lemma widthCache_get_consistent:
  assumes "storeConsistent sv s"
  shows "fst (widthCache_get sv s c bold italic) = measureWidth sv c bold italic"
    and "storeConsistent sv (snd (widthCache_get sv s c bold italic))"
    and "workCell (snd (widthCache_get sv s c bold italic)) = workCell s"
  using assms
  by (auto simp add: widthCache_get_def storeConsistent_def Let_def split: option.splits)

lemma storeConsistentI:
  assumes "\<And>c bold italic w. widthCache s (c, bold, italic) = Some w \<Longrightarrow>
             w = measureWidth sv c bold italic"
    and "\<And>bg fg v. contrastCache s (rgba bg, rgba fg) = Some v \<Longrightarrow>
             v = ensureContrastRatio sv bg fg (minimumContrastRatio sv)"
    and "\<And>bg fg v. halfContrastCache s (rgba bg, rgba fg) = Some v \<Longrightarrow>
             v = ensureContrastRatio sv bg fg (minimumContrastRatio sv / 2)"
  shows "storeConsistent sv s"
  unfolding storeConsistent_def using assms by blast

lemma storeConsistentD:
  assumes "storeConsistent sv s"
  shows "widthCache s (c, bold, italic) = Some w \<Longrightarrow> w = measureWidth sv c bold italic"
    and "contrastCache s (rgba bg, rgba fg) = Some v \<Longrightarrow>
           v = ensureContrastRatio sv bg fg (minimumContrastRatio sv)"
    and "halfContrastCache s (rgba bg, rgba fg) = Some v \<Longrightarrow>
           v = ensureContrastRatio sv bg fg (minimumContrastRatio sv / 2)"
  using assms unfolding storeConsistent_def by blast+

lemma cache_update_consistent:
  fixes cache :: contrastCache and bg fg bg' fg' :: icolor
  assumes ro: "rgbaOnly sv"
    and entry: "(cache((rgba bg, rgba fg) \<mapsto> ensureContrastRatio sv bg fg ratio))
                   (rgba bg', rgba fg') = Some v"
    and old: "\<And>bg fg v. cache (rgba bg, rgba fg) = Some v \<Longrightarrow>
                v = ensureContrastRatio sv bg fg ratio"
  shows "v = ensureContrastRatio sv bg' fg' ratio"
proof (cases "(rgba bg', rgba fg') = (rgba bg, rgba fg)")
  case True
  with entry have v: "v = ensureContrastRatio sv bg fg ratio" by simp
  from True have "rgba bg = rgba bg' \<and> rgba fg = rgba fg'" by simp
  with ro have "ensureContrastRatio sv bg fg ratio = ensureContrastRatio sv bg' fg' ratio"
    unfolding rgbaOnly_def by blast
  with v show ?thesis by simp
next
  case False
  with entry have "cache (rgba bg', rgba fg') = Some v" by (auto split: if_splits)
  then show ?thesis by (rule old)
qed

lemma setContrastCache_consistent:
  assumes ro: "rgbaOnly sv" and ok: "storeConsistent sv s"
  shows "storeConsistent sv
           (setContrastCache s c (rgba bg, rgba fg)
              (ensureContrastRatio sv bg fg
                 (minimumContrastRatio sv / (if isDim c then 2 else 1))))"
proof (cases "isDim c")
  case True
  show ?thesis
  proof (rule storeConsistentI)
    fix t bold italic w
    assume "widthCache (setContrastCache s c (rgba bg, rgba fg)
              (ensureContrastRatio sv bg fg
                 (minimumContrastRatio sv / (if isDim c then 2 else 1)))) (t, bold, italic) = Some w"
    then have "widthCache s (t, bold, italic) = Some w"
      by (simp add: setContrastCache_def split: if_splits)
    then show "w = measureWidth sv t bold italic" by (rule storeConsistentD(1)[OF ok])
  next
    fix bg' fg' :: icolor and v
    assume "contrastCache (setContrastCache s c (rgba bg, rgba fg)
              (ensureContrastRatio sv bg fg
                 (minimumContrastRatio sv / (if isDim c then 2 else 1)))) (rgba bg', rgba fg') = Some v"
    with True have "contrastCache s (rgba bg', rgba fg') = Some v"
      by (simp add: setContrastCache_def)
    then show "v = ensureContrastRatio sv bg' fg' (minimumContrastRatio sv)"
      by (rule storeConsistentD(2)[OF ok])
  next
    fix bg' fg' :: icolor and v
    assume "halfContrastCache (setContrastCache s c (rgba bg, rgba fg)
              (ensureContrastRatio sv bg fg
                 (minimumContrastRatio sv / (if isDim c then 2 else 1)))) (rgba bg', rgba fg') = Some v"
    with True have "((halfContrastCache s)((rgba bg, rgba fg) \<mapsto>
        ensureContrastRatio sv bg fg (minimumContrastRatio sv / 2))) (rgba bg', rgba fg') = Some v"
      by (simp add: setContrastCache_def)
    then show "v = ensureContrastRatio sv bg' fg' (minimumContrastRatio sv / 2)"
      by (rule cache_update_consistent[OF ro]) (rule storeConsistentD(3)[OF ok])
  qed
next
  case False
  show ?thesis
  proof (rule storeConsistentI)
    fix t bold italic w
    assume "widthCache (setContrastCache s c (rgba bg, rgba fg)
              (ensureContrastRatio sv bg fg
                 (minimumContrastRatio sv / (if isDim c then 2 else 1)))) (t, bold, italic) = Some w"
    then have "widthCache s (t, bold, italic) = Some w"
      by (simp add: setContrastCache_def split: if_splits)
    then show "w = measureWidth sv t bold italic" by (rule storeConsistentD(1)[OF ok])
  next
    fix bg' fg' :: icolor and v
    assume "contrastCache (setContrastCache s c (rgba bg, rgba fg)
              (ensureContrastRatio sv bg fg
                 (minimumContrastRatio sv / (if isDim c then 2 else 1)))) (rgba bg', rgba fg') = Some v"
    with False have "((contrastCache s)((rgba bg, rgba fg) \<mapsto>
        ensureContrastRatio sv bg fg (minimumContrastRatio sv))) (rgba bg', rgba fg') = Some v"
      by (simp add: setContrastCache_def)
    then show "v = ensureContrastRatio sv bg' fg' (minimumContrastRatio sv)"
      by (rule cache_update_consistent[OF ro]) (rule storeConsistentD(2)[OF ok])
  next
    fix bg' fg' :: icolor and v
    assume "halfContrastCache (setContrastCache s c (rgba bg, rgba fg)
              (ensureContrastRatio sv bg fg
                 (minimumContrastRatio sv / (if isDim c then 2 else 1)))) (rgba bg', rgba fg') = Some v"
    with False have "halfContrastCache s (rgba bg', rgba fg') = Some v"
      by (simp add: setContrastCache_def)
    then show "v = ensureContrastRatio sv bg' fg' (minimumContrastRatio sv / 2)"
      by (rule storeConsistentD(3)[OF ok])
  qed
qed

lemma applyMinimumContrast_off:
  assumes "minimumContrastRatio sv = 1 \<or> excludeFromContrastRatioDemands (getCode c)"
  shows "applyMinimumContrast sv s element bg fg c bgOverride fgOverride = (False, element, s)"
    and "contrastResult sv element bg fg c bgOverride fgOverride = (False, element)"
  using assms by (simp_all add: applyMinimumContrast_def contrastResult_def)

lemma applyMinimumContrast_miss:
  assumes "\<not> (minimumContrastRatio sv = 1 \<or> excludeFromContrastRatioDemands (getCode c))"
    and "contrastLookup s bg fg c bgOverride fgOverride = None"
  shows "applyMinimumContrast sv s element bg fg c bgOverride fgOverride =
           (fst (contrastResult sv element bg fg c bgOverride fgOverride),
            snd (contrastResult sv element bg fg c bgOverride fgOverride),
            setContrastCache s c (rgba (orElse bgOverride bg), rgba (orElse fgOverride fg))
              (ensureContrastRatio sv (orElse bgOverride bg) (orElse fgOverride fg)
                 (minimumContrastRatio sv / (if isDim c then 2 else 1))))"
  using assms
  by (simp add: applyMinimumContrast_def contrastResult_def Let_def split: option.splits)

lemma applyMinimumContrast_hit:
  assumes "\<not> (minimumContrastRatio sv = 1 \<or> excludeFromContrastRatioDemands (getCode c))"
    and "contrastLookup s bg fg c bgOverride fgOverride = Some cached"
    and "cached = ensureContrastRatio sv (orElse bgOverride bg) (orElse fgOverride fg)
                    (minimumContrastRatio sv / (if isDim c then 2 else 1))"
  shows "applyMinimumContrast sv s element bg fg c bgOverride fgOverride =
           (fst (contrastResult sv element bg fg c bgOverride fgOverride),
            snd (contrastResult sv element bg fg c bgOverride fgOverride), s)"
  using assms
  by (simp add: applyMinimumContrast_def contrastResult_def Let_def split: option.splits)

lemma contrastLookup_consistent:
  assumes ok: "storeConsistent sv s"
    and hit: "contrastLookup s bg fg c bgOverride fgOverride = Some cached"
  shows "cached = ensureContrastRatio sv (orElse bgOverride bg) (orElse fgOverride fg)
                    (minimumContrastRatio sv / (if isDim c then 2 else 1))"
proof -
  from hit have none: "bgOverride = None" "fgOverride = None"
    and entry: "getContrastCache s c (rgba bg, rgba fg) = Some cached"
    by (auto simp add: contrastLookup_def split: if_splits)
  show ?thesis
  proof (cases "isDim c")
    case True
    with entry have "halfContrastCache s (rgba bg, rgba fg) = Some cached"
      by (simp add: getContrastCache_def)
    from storeConsistentD(3)[OF ok this] True none show ?thesis by (simp add: orElse_def)
  next
    case False
    with entry have "contrastCache s (rgba bg, rgba fg) = Some cached"
      by (simp add: getContrastCache_def)
    from storeConsistentD(2)[OF ok this] False none show ?thesis by (simp add: orElse_def)
  qed
qed

lemma applyMinimumContrast_consistent:
  assumes ro: "rgbaOnly sv" and ok: "storeConsistent sv s"
  shows "fst (applyMinimumContrast sv s element bg fg c bgOverride fgOverride)
           = fst (contrastResult sv element bg fg c bgOverride fgOverride)"
    and "fst (snd (applyMinimumContrast sv s element bg fg c bgOverride fgOverride))
           = snd (contrastResult sv element bg fg c bgOverride fgOverride)"
    and "storeConsistent sv
           (snd (snd (applyMinimumContrast sv s element bg fg c bgOverride fgOverride)))"
proof -
  consider (off) "minimumContrastRatio sv = 1 \<or> excludeFromContrastRatioDemands (getCode c)"
    | (miss) "\<not> (minimumContrastRatio sv = 1 \<or> excludeFromContrastRatioDemands (getCode c))"
        "contrastLookup s bg fg c bgOverride fgOverride = None"
    | (hit) cached where
        "\<not> (minimumContrastRatio sv = 1 \<or> excludeFromContrastRatioDemands (getCode c))"
        "contrastLookup s bg fg c bgOverride fgOverride = Some cached"
    by (cases "contrastLookup s bg fg c bgOverride fgOverride") auto
  then have "fst (applyMinimumContrast sv s element bg fg c bgOverride fgOverride)
           = fst (contrastResult sv element bg fg c bgOverride fgOverride)
    \<and> fst (snd (applyMinimumContrast sv s element bg fg c bgOverride fgOverride))
           = snd (contrastResult sv element bg fg c bgOverride fgOverride)
    \<and> storeConsistent sv
           (snd (snd (applyMinimumContrast sv s element bg fg c bgOverride fgOverride)))"
  proof cases
    case off
    from applyMinimumContrast_off[OF off] ok show ?thesis by simp
  next
    case miss
    from applyMinimumContrast_miss[OF miss] setContrastCache_consistent[OF ro ok]
    show ?thesis by simp
  next
    case hit
    from applyMinimumContrast_hit[OF hit contrastLookup_consistent[OF ok hit(2)]] ok
    show ?thesis by simp
  qed
  then show "fst (applyMinimumContrast sv s element bg fg c bgOverride fgOverride)
           = fst (contrastResult sv element bg fg c bgOverride fgOverride)"
    and "fst (snd (applyMinimumContrast sv s element bg fg c bgOverride fgOverride))
           = snd (contrastResult sv element bg fg c bgOverride fgOverride)"
    and "storeConsistent sv
           (snd (snd (applyMinimumContrast sv s element bg fg c bgOverride fgOverride)))"
    by blast+
qed

lemma foregroundPaint_consistent:
  assumes ro: "rgbaOnly sv" and ok: "storeConsistent sv s" and ok2: "storeConsistent sv s2"
  shows "fst (foregroundPaint sv s element c isInv p rb bo)
           = fst (foregroundPaint sv s2 element c isInv p rb bo)"
    and "fst (snd (foregroundPaint sv s element c isInv p rb bo))
           = fst (snd (foregroundPaint sv s2 element c isInv p rb bo))"
    and "storeConsistent sv (snd (snd (foregroundPaint sv s element c isInv p rb bo)))"
  by (simp_all add: foregroundPaint_def Let_def split_def
      applyMinimumContrast_consistent[OF ro ok] applyMinimumContrast_consistent[OF ro ok2]
      split: color_mode.splits)

lemma sameRun_refl_update [simp]: "sameRun st (st\<lparr>shared := s2\<rparr>)"
  by (simp add: sameRun_def)

lemma sameRunE:
  assumes "sameRun st st2"
  obtains s2 where "st2 = st\<lparr>shared := s2\<rparr>"
  using assms unfolding sameRun_def by blast

lemma closeChar_shared [simp]: "closeChar (st\<lparr>shared := s2\<rparr>) = closeChar st"
  by (simp add: closeChar_def)

lemma closeBackground_shared [simp]:
  "closeBackground a (st\<lparr>shared := s2\<rparr>) = closeBackground a st"
  by (simp add: closeBackground_def)

lemma canMergeCharacters_shared [simp]:
  "canMergeCharacters sv (st\<lparr>shared := s2\<rparr>) ci = canMergeCharacters sv st ci"
  by (simp add: canMergeCharacters_def)

lemma canMergeBackground_shared [simp]:
  "canMergeBackground (st\<lparr>shared := s2\<rparr>) ci = canMergeBackground st ci"
  by (simp add: canMergeBackground_def)

lemma resolvePaint_shared [simp]:
  "resolvePaint sv a (st\<lparr>shared := s2\<rparr>) ci = resolvePaint sv a st ci"
  by (simp add: resolvePaint_def)

lemma openBackground_shared [simp]:
  "openBackground sv a ci isInv p (st\<lparr>shared := s2\<rparr>)
     = (openBackground sv a ci isInv p st)\<lparr>shared := s2\<rparr>"
  by (simp add: openBackground_def)

lemma openChar_consistent:
  assumes ro: "rgbaOnly sv" and ok: "storeConsistent sv (shared st)"
    and ok2: "storeConsistent sv s2"
  shows "sameRun (openChar sv this a ci isInv p rb bo st)
           (openChar sv this a ci isInv p rb bo (st\<lparr>shared := s2\<rparr>))"
    and "storeConsistent sv (shared (openChar sv this a ci isInv p rb bo st))"
proof -
  note fp = foregroundPaint_consistent[OF ro ok2 ok]
  show "sameRun (openChar sv this a ci isInv p rb bo st)
           (openChar sv this a ci isInv p rb bo (st\<lparr>shared := s2\<rparr>))"
    by (simp add: sameRun_def openChar_def Let_def split_def fp(1) fp(2))
  show "storeConsistent sv (shared (openChar sv this a ci isInv p rb bo st))"
    by (simp add: openChar_def Let_def split_def foregroundPaint_consistent(3)[OF ro ok ok])
qed

lemma loadUnit_consistent:
  assumes ok: "storeConsistent sv (shared st)" and ok2: "storeConsistent sv s2"
    and work: "workCell s2 = workCell (shared st)"
  shows "fst (loadUnit sv this a (st\<lparr>shared := s2\<rparr>)) = fst (loadUnit sv this a st)"
    and "sameRun (snd (loadUnit sv this a st)) (snd (loadUnit sv this a (st\<lparr>shared := s2\<rparr>)))"
    and "storeConsistent sv (shared (snd (loadUnit sv this a st)))"
proof -
  have j: "joinedAt (st\<lparr>shared := s2\<rparr>) = joinedAt st" by simp
  show "fst (loadUnit sv this a (st\<lparr>shared := s2\<rparr>)) = fst (loadUnit sv this a st)"
    by (simp add: loadUnit_def Let_def split_def work widthCache_get_consistent(1)[OF ok]
        widthCache_get_consistent(1)[OF ok2] split: option.splits)
  show "sameRun (snd (loadUnit sv this a st)) (snd (loadUnit sv this a (st\<lparr>shared := s2\<rparr>)))"
    by (simp add: loadUnit_def Let_def split_def sameRun_def split: option.splits)
  show "storeConsistent sv (shared (snd (loadUnit sv this a st)))"
    by (simp add: loadUnit_def Let_def split_def widthCache_get_consistent(2)[OF ok]
        split: option.splits)
qed

lemma loadUnit_store_consistent:
  assumes ok: "storeConsistent sv (shared st)"
  shows "storeConsistent sv (shared (snd (loadUnit sv this a st)))"
  by (simp add: loadUnit_def Let_def split_def widthCache_get_consistent(2)[OF ok]
      split: option.splits)

lemma renderUnit_consistent:
  assumes ro: "rgbaOnly sv" and ok: "storeConsistent sv (shared st)"
    and ok2: "storeConsistent sv s2"
  shows "sameRun (renderUnit sv this a ci st) (renderUnit sv this a ci (st\<lparr>shared := s2\<rparr>))"
    and "storeConsistent sv (shared (renderUnit sv this a ci st))"
proof -
  define c where "c = ci_cell ci"
  define p where "p = resolvePaint sv a st ci"
  define rb where "rb = resolveBg sv (isInverse c) p"
  define bo where "bo = dimBgOverride sv c rb p"
  define st1 where "st1 = (\<lambda>st'::rowState. if canMergeBackground st ci
      then st'\<lparr>backgroundCellAmount := backgroundCellAmount st' + ci_width ci\<rparr> else st')"
  define st3 where "st3 = (\<lambda>st'::rowState. (st1 st')\<lparr>oldBg := cell_bg c, oldFg := cell_fg c,
      oldExt := extended_ext c, oldLinkHover := ci_isLinkHover ci, oldSpacing := ci_spacing ci,
      oldIsInSelection := ci_isInSelection ci, oldDecorations := ci_decorations ci\<rparr>)"
  define st4 where "st4 = (\<lambda>st'::rowState. if \<not> canMergeBackground st ci
      then openBackground sv a ci (isInverse c) p (st3 st') else st3 st')"
  have st4_shared: "st4 (st\<lparr>shared := s2\<rparr>) = (st4 st)\<lparr>shared := s2\<rparr>"
    by (simp add: st4_def st3_def st1_def openBackground_def closeBackground_def)
  have st4_store: "shared (st4 st) = shared st"
    by (simp add: st4_def st3_def st1_def)
  show "sameRun (renderUnit sv this a ci st) (renderUnit sv this a ci (st\<lparr>shared := s2\<rparr>))"
  proof (cases "canMergeCharacters sv st ci")
    case True
    then show ?thesis
      by (simp add: renderUnit_def Let_def sameRun_def openBackground_def closeBackground_def
          resolvePaint_def)
  next
    case False
    have u1: "renderUnit sv this a ci st = openChar sv this a ci (isInverse c) p rb bo (st4 st)"
      using False
      by (simp add: renderUnit_def Let_def st4_def st3_def st1_def p_def c_def rb_def bo_def
          resolvePaint_def)
    have u2: "renderUnit sv this a ci (st\<lparr>shared := s2\<rparr>)
                = openChar sv this a ci (isInverse c) p rb bo (st4 (st\<lparr>shared := s2\<rparr>))"
      using False
      by (simp add: renderUnit_def Let_def st4_def st3_def st1_def p_def c_def rb_def bo_def
          resolvePaint_def)
    from ok have "storeConsistent sv (shared (st4 st))" by (simp add: st4_store)
    from openChar_consistent(1)[OF ro this ok2] show ?thesis
      by (simp add: u1 u2 st4_shared)
  qed
  show "storeConsistent sv (shared (renderUnit sv this a ci st))"
  proof (cases "canMergeCharacters sv st ci")
    case True
    with ok show ?thesis by (simp add: renderUnit_def Let_def)
  next
    case False
    have u1: "renderUnit sv this a ci st = openChar sv this a ci (isInverse c) p rb bo (st4 st)"
      using False
      by (simp add: renderUnit_def Let_def st4_def st3_def st1_def p_def c_def rb_def bo_def
          resolvePaint_def)
    from ok have "storeConsistent sv (shared (st4 st))" by (simp add: st4_store)
    from openChar_consistent(2)[OF ro this ok] show ?thesis by (simp add: u1)
  qed
qed

lemma cellBody_consistent:
  assumes ro: "rgbaOnly sv" and ok: "storeConsistent sv (shared st)"
    and ok2: "storeConsistent sv s2"
  shows "sameRun (cellBody sv this a st) (cellBody sv this a (st\<lparr>shared := s2\<rparr>))"
    and "storeConsistent sv (shared (cellBody sv this a st))"
proof -
  let ?c = "loadCell (arg_lineData a) (cur_x st)"
  let ?l = "st\<lparr>shared := (shared st)\<lparr>workCell := ?c\<rparr>\<rparr>"
  let ?s2 = "s2\<lparr>workCell := ?c\<rparr>"
  have l2: "(st\<lparr>shared := s2\<rparr>)\<lparr>shared := (shared (st\<lparr>shared := s2\<rparr>))\<lparr>workCell := ?c\<rparr>\<rparr>
              = ?l\<lparr>shared := ?s2\<rparr>"
    by simp
  have okl: "storeConsistent sv (shared ?l)" using ok by simp
  have ok2l: "storeConsistent sv ?s2" using ok2 by simp
  have work: "workCell ?s2 = workCell (shared ?l)" by simp
  note lu = loadUnit_consistent[OF okl ok2l work, of this a]
  obtain ci st1 where unit: "loadUnit sv this a ?l = (ci, st1)" by force
  obtain st1' where unit2: "loadUnit sv this a (?l\<lparr>shared := ?s2\<rparr>) = (ci, st1')"
    using lu(1) unit by (cases "loadUnit sv this a (?l\<lparr>shared := ?s2\<rparr>)") simp
  from lu(2) unit unit2 have "sameRun st1 st1'" by simp
  then obtain s1' where st1': "st1' = st1\<lparr>shared := s1'\<rparr>" by (rule sameRunE)
  from lu(3) unit have ok1: "storeConsistent sv (shared st1)" by simp
  have "storeConsistent sv (shared (snd (loadUnit sv this a (?l\<lparr>shared := ?s2\<rparr>))))"
    by (rule loadUnit_store_consistent) (simp add: ok2)
  with unit2 st1' have ok1': "storeConsistent sv s1'" by simp
  show "sameRun (cellBody sv this a st) (cellBody sv this a (st\<lparr>shared := s2\<rparr>))"
  proof (cases "getWidth ?c = 0")
    case True
    then show ?thesis by (simp add: cellBody_def sameRun_def)
  next
    case False
    have b1: "cellBody sv this a st = renderUnit sv this a ci st1"
      using False unit by (simp add: cellBody_def)
    have b2: "cellBody sv this a (st\<lparr>shared := s2\<rparr>) = renderUnit sv this a ci (st1\<lparr>shared := s1'\<rparr>)"
      using False unit2 st1' by (simp add: cellBody_def)
    from renderUnit_consistent(1)[OF ro ok1 ok1'] show ?thesis by (simp add: b1 b2)
  qed
  show "storeConsistent sv (shared (cellBody sv this a st))"
  proof (cases "getWidth ?c = 0")
    case True
    with ok show ?thesis by (simp add: cellBody_def)
  next
    case False
    have b1: "cellBody sv this a st = renderUnit sv this a ci st1"
      using False unit by (simp add: cellBody_def)
    from renderUnit_consistent(2)[OF ro ok1 ok1] show ?thesis by (simp add: b1)
  qed
qed

lemma createRow_loop_consistent:
  assumes "rgbaOnly sv" and "storeConsistent sv (shared st)" and "storeConsistent sv s2"
  shows "sameRun (createRow_loop sv this a n st) (createRow_loop sv this a n (st\<lparr>shared := s2\<rparr>))
         \<and> storeConsistent sv (shared (createRow_loop sv this a n st))"
  using assms
proof (induction sv this a n st arbitrary: s2 rule: createRow_loop.induct)
  case (1 sv this a lineLength st)
  note ro = "1.prems"(1) and ok = "1.prems"(2) and ok2 = "1.prems"(3)
  show ?case
  proof (cases "cur_x st < lineLength")
    case True
    let ?b = "cellBody sv this a st"
    let ?b2 = "cellBody sv this a (st\<lparr>shared := s2\<rparr>)"
    let ?next = "?b\<lparr>cur_x := cur_x ?b + 1\<rparr>"
    from cellBody_consistent(1)[OF ro ok ok2] obtain s' where b2: "?b2 = ?b\<lparr>shared := s'\<rparr>"
      by (rule sameRunE)
    have "storeConsistent sv (shared ?b2)"
      by (rule cellBody_consistent(2)[OF ro _ ok2]) (simp add: ok2)
    with b2 have ok': "storeConsistent sv s'" by simp
    have okn: "storeConsistent sv (shared ?next)"
      using cellBody_consistent(2)[OF ro ok ok] by simp
    have next2: "?b2\<lparr>cur_x := cur_x ?b2 + 1\<rparr> = ?next\<lparr>shared := s'\<rparr>"
      by (simp add: b2)
    have l1: "createRow_loop sv this a lineLength st = createRow_loop sv this a lineLength ?next"
      using True by (subst createRow_loop.simps) simp
    have l2: "createRow_loop sv this a lineLength (st\<lparr>shared := s2\<rparr>)
                = createRow_loop sv this a lineLength (?next\<lparr>shared := s'\<rparr>)"
      using True next2 by (subst createRow_loop.simps) simp
    from "1.IH"[OF True ro okn ok'] show ?thesis by (simp add: l1 l2)
  next
    case False
    then have "createRow_loop sv this a lineLength st = st"
      "createRow_loop sv this a lineLength (st\<lparr>shared := s2\<rparr>) = st\<lparr>shared := s2\<rparr>"
      by (simp_all add: createRow_loop_stop)
    with ok show ?thesis by simp
  qed
qed

lemma createRow_any_consistent_store:
  assumes ro: "rgbaOnly sv" and ok: "storeConsistent sv s" and ok2: "storeConsistent sv s2"
  shows "fst (createRow sv this a s2) = fst (createRow sv this a s)"
    and "storeConsistent sv (snd (createRow sv this a s))"
proof -
  let ?n = "lineLength_of this (arg_lineData a) (arg_row a) (arg_isCursorRow a) (arg_cursorX a)"
  let ?init = "initialRowState sv a s"
  have init2: "initialRowState sv a s2 = ?init\<lparr>shared := s2\<rparr>"
    by (simp add: initialRowState_def)
  have oki: "storeConsistent sv (shared ?init)" using ok by (simp add: initialRowState_def)
  note l = createRow_loop_consistent[OF ro oki ok2, of this a ?n]
  from l obtain s' where final2:
    "createRow_loop sv this a ?n (?init\<lparr>shared := s2\<rparr>)
       = (createRow_loop sv this a ?n ?init)\<lparr>shared := s'\<rparr>"
    by (blast elim: sameRunE)
  show "fst (createRow sv this a s2) = fst (createRow sv this a s)"
    by (simp add: createRow_def createRow_state_def Let_def init2 final2 flushRow_def)
  from l show "storeConsistent sv (snd (createRow sv this a s))"
    by (simp add: createRow_def createRow_state_def Let_def flushRow_def)
qed

text \<open>
  C9: rendering a row twice with the same line, cursor, selection, options, theme and
  joined ranges gives the same list of runs, although the first call has loaded the
  scratch cell and may have filled the width cache and the contrast caches. The caches
  are memoization tables: the store the first call starts from holds only entries that
  agree with the functions they memoize, and the store it leaves does so again.
\<close>

theorem createRow_idempotent:
  assumes ro: "rgbaOnly sv" and ok: "storeConsistent sv s"
  shows "fst (createRow sv this a (snd (createRow sv this a s))) = fst (createRow sv this a s)
         \<and> storeConsistent sv (snd (createRow sv this a s))"
proof -
  have ok': "storeConsistent sv (snd (createRow sv this a s))"
    by (rule createRow_any_consistent_store(2)[OF ro ok ok])
  from createRow_any_consistent_store(1)[OF ro ok ok'] ok' show ?thesis by simp
qed

theorem createRow_idempotent_witness:
  "fst (createRow contrastServices newFactory dimCellArgs
          (snd (createRow contrastServices newFactory dimCellArgs emptyStore)))
     = fst (createRow contrastServices newFactory dimCellArgs emptyStore)"
proof -
  have ro: "rgbaOnly contrastServices"
    by (simp add: rgbaOnly_def contrastServices_def)
  have ok: "storeConsistent contrastServices emptyStore"
    by (simp add: storeConsistent_def emptyStore_def)
  from createRow_idempotent[OF ro ok] show ?thesis by (rule conjunct1)
qed

end
